theory Spec2Isabelle
  imports Complex_Main "HOL-Library.Sublist" "HOL-Library.Code_Target_Nat"
begin

section \<open>Lexical paths (pathlib, POSIX flavour)\<close>

text \<open>
  The script manipulates \<^verbatim>\<open>pathlib.Path\<close> values. A parsed path is an anchor (the root:
  empty, one slash, or two slashes) and the list of its components. Parsing drops empty
  components and single dots, and keeps every \<^verbatim>\<open>..\<close> component: pathlib never resolves
  them. This is the POSIX flavour, which the script gets on Linux and macOS: the drive is
  always empty, comparison is case sensitive and the separator is a slash. The Windows
  flavour (drive letters, backslashes, comparison without case) is not represented.
\<close>

record path =
  path_root :: string
  path_tail :: "string list"

datatype exn =
    ValueError
  | FileNotFoundError
  | PermissionError
  | OSError string
  | OtherException string

fun split_sep :: "char \<Rightarrow> string \<Rightarrow> string list" where
  "split_sep c [] = [[]]"
| "split_sep c (x # xs) =
     (if x = c then [] # split_sep c xs
      else (case split_sep c xs of
              [] \<Rightarrow> [[x]]
            | w # ws \<Rightarrow> (x # w) # ws))"

fun join_sep :: "char \<Rightarrow> string list \<Rightarrow> string" where
  "join_sep c [] = []"
| "join_sep c [x] = x"
| "join_sep c (x # y # ys) = x @ c # join_sep c (y # ys)"

definition splitroot :: "string \<Rightarrow> string \<times> string" where
  "splitroot part =
     (case part of
        [] \<Rightarrow> ([], part)
      | c # _ \<Rightarrow>
          if c = CHR ''/'' then
            (let stripped_part = dropWhile (\<lambda>d. d = CHR ''/'') part in
             if length part - length stripped_part = 2
             then (''//'', stripped_part)
             else (''/'', stripped_part))
          else ([], part))"

definition Path :: "string \<Rightarrow> path" where
  "Path s =
     (case splitroot s of
        (r, rel) \<Rightarrow>
          \<lparr>path_root = r,
           path_tail = filter (\<lambda>x. x \<noteq> [] \<and> x \<noteq> ''.'') (split_sep (CHR ''/'') rel)\<rparr>)"

definition joinpath :: "path \<Rightarrow> string \<Rightarrow> path" where
  "joinpath p s =
     (let q = Path s in
      if path_root q \<noteq> [] then q
      else \<lparr>path_root = path_root p, path_tail = path_tail p @ path_tail q\<rparr>)"

definition str :: "path \<Rightarrow> string" where
  "str p =
     (let s = path_root p @ join_sep (CHR ''/'') (path_tail p) in
      if s = [] then ''.'' else s)"

definition parent :: "path \<Rightarrow> path" where
  "parent p =
     (if path_tail p = [] then p
      else \<lparr>path_root = path_root p, path_tail = butlast (path_tail p)\<rparr>)"

definition relative_to :: "path \<Rightarrow> path \<Rightarrow> exn + path" where
  "relative_to p other =
     (if path_root p = path_root other \<and> prefix (path_tail other) (path_tail p)
      then Inr \<lparr>path_root = [], path_tail = drop (length (path_tail other)) (path_tail p)\<rparr>
      else Inl ValueError)"

definition is_relative_to :: "path \<Rightarrow> path \<Rightarrow> bool" where
  "is_relative_to p other =
     (case relative_to p other of
        Inr _ \<Rightarrow> True
      | Inl _ \<Rightarrow> False)"

definition startswith :: "string \<Rightarrow> string \<Rightarrow> bool" where
  "startswith s pre = prefix pre s"

section \<open>The safety gate\<close>

datatype system = Windows | Darwin | Linux

fun EXPECTED_BASES :: "system \<Rightarrow> string list" where
  "EXPECTED_BASES Windows =
     [''AppData'' @ CHR 0x5C # ''Roaming'', ''AppData'' @ CHR 0x5C # ''Local'']"
| "EXPECTED_BASES Darwin =
     [''Library/Application Support'', ''Library/Caches'', ''Library/Preferences'',
      ''Library/Saved Application State'', ''Library/HTTPStorages'']"
| "EXPECTED_BASES Linux = [''.config'', ''.cache'', ''.local/share'']"

definition is_safe_to_delete :: "path \<Rightarrow> path \<Rightarrow> string list \<Rightarrow> bool" where
  "is_safe_to_delete path_to_delete home_dir allowed_bases =
     (if \<not> is_relative_to path_to_delete home_dir then False
      else
        (case relative_to path_to_delete home_dir of
           Inl _ \<Rightarrow> False
         | Inr relative_path \<Rightarrow>
             if \<not> list_ex (\<lambda>base. startswith (str relative_path) base) allowed_bases
             then (if parent relative_path \<noteq> Path ''.'' then False else True)
             else True))"

section \<open>Floating point\<close>

text \<open>
  A Python \<^verbatim>\<open>float\<close> is an IEEE 754 double. A finite double is a rational number; the
  result of an arithmetic operation is the exact result rounded to 53 significant bits,
  ties to even. \<open>expo x\<close> is the exponent of a positive \<open>x\<close> (the integer part of its
  binary logarithm), \<open>rne\<close> rounds to the nearest integer, ties to even, and \<open>fl\<close> rounds
  to the nearest double. Overflow, subnormal numbers and NaN are not represented: the
  values computed here lie between one millionth and \<open>2 ^ 53\<close>.
\<close>

fun ilog2 :: "nat \<Rightarrow> nat" where
  "ilog2 n = (if n < 2 then 0 else Suc (ilog2 (n div 2)))"

declare ilog2.simps [simp del]

definition expo :: "rat \<Rightarrow> int" where
  "expo x =
     (if 1 \<le> x then int (ilog2 (nat \<lfloor>x\<rfloor>))
      else - int (Suc (ilog2 (nat (\<lceil>1 / x\<rceil> - 1)))))"

definition rne :: "rat \<Rightarrow> int" where
  "rne x =
     (let f = \<lfloor>x\<rfloor>; r = x - of_int f in
      if r < 1 / 2 then f
      else if 1 / 2 < r then f + 1
      else if even f then f else f + 1)"

definition fl :: "rat \<Rightarrow> rat" where
  "fl x =
     (if x = 0 then 0
      else (let u = 2 powi (expo \<bar>x\<bar> - 52) in of_int (rne (x / u)) * u))"

text \<open>\<^verbatim>\<open>float(n)\<close>, the operators on floats, and \<^verbatim>\<open>int(x)\<close>, which truncates towards zero.\<close>

definition float_of_int :: "int \<Rightarrow> rat" where
  "float_of_int n = fl (of_int n)"

definition float_add :: "rat \<Rightarrow> rat \<Rightarrow> rat" where
  "float_add x y = fl (x + y)"

definition float_mul :: "rat \<Rightarrow> rat \<Rightarrow> rat" where
  "float_mul x y = fl (x * y)"

definition float_div :: "rat \<Rightarrow> rat \<Rightarrow> rat" where
  "float_div x y = fl (x / y)"

definition int_of_float :: "rat \<Rightarrow> int" where
  "int_of_float x = (if 0 \<le> x then \<lfloor>x\<rfloor> else \<lceil>x\<rceil>)"

section \<open>Dates and times\<close>

text \<open>
  \<^verbatim>\<open>datetime.now()\<close> is a naive datetime: the reading of the local wall clock, with no
  time zone. Its fields from year to second are kept as one number, the seconds this
  reading lies after the reading 1970-01-01 00:00:00 of the same clock (the value
  \<^verbatim>\<open>(self - epoch) // timedelta(0, 1)\<close> of the library); adding a \<^verbatim>\<open>timedelta\<close> is
  arithmetic on that number. \<open>fold\<close> tells the second of two equal readings when the
  clock was set back. The result of an addition has \<open>fold\<close> unset, and must not pass the
  year 9999.
\<close>

record datetime =
  wall_seconds :: int
  microsecond :: nat
  fold :: bool

definition MIN_WALL_SECONDS :: int where
  "MIN_WALL_SECONDS = - 62135596800"

definition MAX_WALL_SECONDS :: int where
  "MAX_WALL_SECONDS = 253402300799"

definition add_days :: "datetime \<Rightarrow> int \<Rightarrow> exn + datetime" where
  "add_days d days =
     (let t = wall_seconds d + days * 86400 in
      if MIN_WALL_SECONDS \<le> t \<and> t \<le> MAX_WALL_SECONDS
      then Inr \<lparr>wall_seconds = t, microsecond = microsecond d, fold = False\<rparr>
      else Inl (OtherException ''OverflowError''))"

text \<open>
  \<^verbatim>\<open>timestamp()\<close> of a naive datetime asks the operating system which instant the
  reading denotes. \<open>local u\<close> is the wall-clock reading at the instant \<open>u\<close> (seconds
  since the epoch): \<open>u\<close> plus the offset from UTC in force at \<open>u\<close>. \<open>mktime\<close> is the
  library's search for an instant with the given reading (\<^verbatim>\<open>_mktime\<close>). The search
  is total here; the library raises when one of its probes leaves the years 1 to 9999.
\<close>

definition mktime_second_guess ::
  "(int \<Rightarrow> int) \<Rightarrow> datetime \<Rightarrow> int \<Rightarrow> int \<Rightarrow> int \<Rightarrow> int \<Rightarrow> int" where
  "mktime_second_guess local d t u1 t1 b =
     (let u2 = t - b; t2 = local u2 in
      if t2 = t then u2
      else if t1 = t then u1
      else if fold d then min u1 u2 else max u1 u2)"

definition mktime :: "(int \<Rightarrow> int) \<Rightarrow> datetime \<Rightarrow> int" where
  "mktime local d =
     (let t = wall_seconds d;
          a = local t - t;
          u1 = t - a;
          t1 = local u1 in
      if t1 = t then
        (let u2 = u1 + (if fold d then 86400 else - 86400);
             b = local u2 - u2 in
         if a = b then u1 else mktime_second_guess local d t u1 t1 b)
      else mktime_second_guess local d t u1 t1 (t1 - u1))"

definition timestamp :: "(int \<Rightarrow> int) \<Rightarrow> datetime \<Rightarrow> rat" where
  "timestamp local d =
     float_add (float_of_int (mktime local d))
       (float_div (float_of_int (int (microsecond d))) 1000000)"

text \<open>
  The offset from UTC that \<^verbatim>\<open>timestamp()\<close> takes for a reading: the reading less the
  instant found for it.
\<close>

definition utc_offset :: "(int \<Rightarrow> int) \<Rightarrow> datetime \<Rightarrow> int" where
  "utc_offset local d = wall_seconds d - mktime local d"

section \<open>The operating system\<close>

text \<open>
  The script reaches the file system only through the calls below. What they do is not
  in the script, so the operating system is a parameter: a record of functions over a
  state \<open>'w\<close> of the outside world. A query returns a value or raises; it does not
  change the world. A mutation returns the new world and the exception it raised, if any
  (a recursive removal can fail after part of the tree is gone).

  The queries \<^verbatim>\<open>exists\<close>, \<^verbatim>\<open>is_file\<close>, \<^verbatim>\<open>is_dir\<close> and \<^verbatim>\<open>is_symlink\<close> of
  \<^verbatim>\<open>pathlib\<close> call \<^verbatim>\<open>stat\<close>; up to Python 3.13 they turn the errors ENOENT, ENOTDIR,
  EBADF and ELOOP into the answer False and raise every other \<^verbatim>\<open>OSError\<close> again (so
  EACCES arrives as \<^verbatim>\<open>PermissionError\<close>). Hence their result type \<open>exn + bool\<close>.

  \<open>os_uuid4\<close> draws a random token, \<open>os_now\<close> reads the local wall clock, and
  \<open>os_localtime\<close> is the time zone of the machine.
\<close>

record 'w os =
  os_exists :: "path \<Rightarrow> 'w \<Rightarrow> exn + bool"
  os_is_file :: "path \<Rightarrow> 'w \<Rightarrow> exn + bool"
  os_is_symlink :: "path \<Rightarrow> 'w \<Rightarrow> exn + bool"
  os_is_dir :: "path \<Rightarrow> 'w \<Rightarrow> exn + bool"
  os_unlink :: "path \<Rightarrow> 'w \<Rightarrow> exn option \<times> 'w"
  os_rmtree :: "path \<Rightarrow> 'w \<Rightarrow> exn option \<times> 'w"
  os_mkdir_parents :: "path \<Rightarrow> 'w \<Rightarrow> exn option \<times> 'w"
  os_write_text :: "path \<Rightarrow> string \<Rightarrow> 'w \<Rightarrow> exn option \<times> 'w"
  os_uuid4 :: "'w \<Rightarrow> string \<times> 'w"
  os_now :: "'w \<Rightarrow> datetime \<times> 'w"
  os_localtime :: "int \<Rightarrow> int"

section \<open>The guarded remover\<close>

text \<open>
  \<^verbatim>\<open>remove_path\<close> returns nothing; what it did is told by the line it prints. Each
  outcome below is one of those lines: \<open>Skipped_absent\<close> is the silent return of
  line 62, \<open>Skipped_unsafe\<close> the return of line 66 (the gate has printed its warning),
  the others are the prints of lines 71 to 86.
\<close>

datatype outcome =
    Skipped_absent
  | Skipped_unsafe
  | Deleted_file
  | Deleted_directory
  | Skipped_non_file_dir
  | Path_already_gone
  | Permission_denied
  | OS_error exn
  | Unexpected_error exn

text \<open>
  The \<^verbatim>\<open>except\<close> clauses of lines 78 to 86, in their order. \<^verbatim>\<open>FileNotFoundError\<close> and
  \<^verbatim>\<open>PermissionError\<close> are subclasses of \<^verbatim>\<open>OSError\<close>; \<open>OSError\<close> below is any other
  error of the operating system, with its text. The last two outcomes print the
  exception.
\<close>

fun deletion_failure :: "exn \<Rightarrow> outcome" where
  "deletion_failure FileNotFoundError = Path_already_gone"
| "deletion_failure PermissionError = Permission_denied"
| "deletion_failure (OSError reason) = OS_error (OSError reason)"
| "deletion_failure e = Unexpected_error e"

text \<open>The body of the \<^verbatim>\<open>try\<close> statement, lines 69 to 76; \<open>Inl\<close> is an exception raised in it.\<close>

definition delete_by_type :: "'w os \<Rightarrow> path \<Rightarrow> 'w \<Rightarrow> (exn + outcome) \<times> 'w" where
  "delete_by_type os path_to_delete w =
     (case os_is_file os path_to_delete w of
        Inl e \<Rightarrow> (Inl e, w)
      | Inr is_file \<Rightarrow>
          (case (if is_file then Inr True else os_is_symlink os path_to_delete w) of
             Inl e \<Rightarrow> (Inl e, w)
           | Inr True \<Rightarrow>
               (case os_unlink os path_to_delete w of
                  (Some e, w') \<Rightarrow> (Inl e, w')
                | (None, w') \<Rightarrow> (Inr Deleted_file, w'))
           | Inr False \<Rightarrow>
               (case os_is_dir os path_to_delete w of
                  Inl e \<Rightarrow> (Inl e, w)
                | Inr True \<Rightarrow>
                    (case os_rmtree os path_to_delete w of
                       (Some e, w') \<Rightarrow> (Inl e, w')
                     | (None, w') \<Rightarrow> (Inr Deleted_directory, w'))
                | Inr False \<Rightarrow> (Inr Skipped_non_file_dir, w))))"

text \<open>
  A \<^verbatim>\<open>Path\<close> object is always true, so \<^verbatim>\<open>not path_to_delete\<close> in line 61 is false and
  the test is the existence test alone. It stands before the \<^verbatim>\<open>try\<close>: an exception it
  raises leaves \<^verbatim>\<open>remove_path\<close> (the result \<open>Inl\<close>).
\<close>

definition remove_path ::
  "'w os \<Rightarrow> path \<Rightarrow> path \<Rightarrow> string list \<Rightarrow> 'w \<Rightarrow> (exn + outcome) \<times> 'w" where
  "remove_path os path_to_delete home_dir allowed_bases w =
     (case os_exists os path_to_delete w of
        Inl e \<Rightarrow> (Inl e, w)
      | Inr False \<Rightarrow> (Inr Skipped_absent, w)
      | Inr True \<Rightarrow>
          if \<not> is_safe_to_delete path_to_delete home_dir allowed_bases
          then (Inr Skipped_unsafe, w)
          else
            (case delete_by_type os path_to_delete w of
               (Inl e, w') \<Rightarrow> (Inr (deletion_failure e), w')
             | (Inr done, w') \<Rightarrow> (Inr done, w')))"

text \<open>
  The loops of the deletion phase of \<^verbatim>\<open>reset_cursor\<close> (lines 300 to 309) call
  \<^verbatim>\<open>remove_path\<close> on each candidate in turn, with nothing around the call: an exception
  ends the loop and the candidates after it are not visited.
\<close>

fun remove_paths ::
  "'w os \<Rightarrow> path list \<Rightarrow> path \<Rightarrow> string list \<Rightarrow> 'w \<Rightarrow> (exn + outcome list) \<times> 'w" where
  "remove_paths os [] home_dir allowed_bases w = (Inr [], w)"
| "remove_paths os (p # ps) home_dir allowed_bases w =
     (case remove_path os p home_dir allowed_bases w of
        (Inl e, w') \<Rightarrow> (Inl e, w')
      | (Inr done, w') \<Rightarrow>
          (case remove_paths os ps home_dir allowed_bases w' of
             (Inl e, w'') \<Rightarrow> (Inl e, w'')
           | (Inr dones, w'') \<Rightarrow> (Inr (done # dones), w'')))"

section \<open>The file writers\<close>

datatype creation =
    Created string path
  | Creation_permission_denied
  | Creation_OS_error exn
  | Creation_unexpected_error exn
  | Generation_failed exn

text \<open>
  The \<^verbatim>\<open>except\<close> clauses of lines 96 to 101: here \<^verbatim>\<open>FileNotFoundError\<close> has no clause
  of its own and is caught as an \<^verbatim>\<open>OSError\<close>.
\<close>

fun creation_failure :: "exn \<Rightarrow> creation" where
  "creation_failure PermissionError = Creation_permission_denied"
| "creation_failure FileNotFoundError = Creation_OS_error FileNotFoundError"
| "creation_failure (OSError reason) = Creation_OS_error (OSError reason)"
| "creation_failure e = Creation_unexpected_error e"

definition create_file_with_content ::
  "'w os \<Rightarrow> path \<Rightarrow> string \<Rightarrow> string \<Rightarrow> 'w \<Rightarrow> creation \<times> 'w" where
  "create_file_with_content os path content description w =
     (case os_mkdir_parents os (parent path) w of
        (Some e, w') \<Rightarrow> (creation_failure e, w')
      | (None, w') \<Rightarrow>
          (case os_write_text os path content w' of
             (Some e, w'') \<Rightarrow> (creation_failure e, w'')
           | (None, w'') \<Rightarrow> (Created description path, w'')))"

definition create_new_machine_id :: "'w os \<Rightarrow> path \<Rightarrow> 'w \<Rightarrow> creation \<times> 'w" where
  "create_new_machine_id os path w =
     (case os_uuid4 os w of
        (new_id, w') \<Rightarrow> create_file_with_content os path new_id ''Created new machine ID'' w')"

text \<open>
  The dictionary \<^verbatim>\<open>new_trial_data\<close> of lines 119 to 124, and the text \<^verbatim>\<open>json.dumps\<close> makes
  of it with \<^verbatim>\<open>indent=4\<close>. In a JSON string the quote and the backslash are escaped;
  the characters of a UUID (hexadecimal digits and hyphens) stand for themselves.
\<close>

record trial_data =
  trialStartTimestamp :: int
  trialEndTimestamp :: int
  hasUsedTrial :: bool
  machineId :: string

fun show_nat :: "nat \<Rightarrow> string" where
  "show_nat n =
     (if n < 10 then [''0123456789'' ! n]
      else show_nat (n div 10) @ [''0123456789'' ! (n mod 10)])"

declare show_nat.simps [simp del]

definition show_int :: "int \<Rightarrow> string" where
  "show_int i = (if i < 0 then CHR ''-'' # show_nat (nat (- i)) else show_nat (nat i))"

fun json_escape :: "string \<Rightarrow> string" where
  "json_escape [] = []"
| "json_escape (c # cs) =
     (if c = CHR 0x22 \<or> c = CHR 0x5C then CHR 0x5C # c # json_escape cs
      else c # json_escape cs)"

definition json_string :: "string \<Rightarrow> string" where
  "json_string s = CHR 0x22 # json_escape s @ [CHR 0x22]"

definition json_member :: "string \<Rightarrow> string \<Rightarrow> string" where
  "json_member key val = ''    '' @ json_string key @ '': '' @ val"

definition json_dumps :: "trial_data \<Rightarrow> string" where
  "json_dumps d =
     ''{'' @ [CHR 0x0A]
     @ json_member ''trialStartTimestamp'' (show_int (trialStartTimestamp d)) @ '','' @ [CHR 0x0A]
     @ json_member ''trialEndTimestamp'' (show_int (trialEndTimestamp d)) @ '','' @ [CHR 0x0A]
     @ json_member ''hasUsedTrial'' (if hasUsedTrial d then ''true'' else ''false'')
     @ '','' @ [CHR 0x0A]
     @ json_member ''machineId'' (json_string (machineId d)) @ [CHR 0x0A]
     @ ''}''"

text \<open>
  Lines 115 and 116: \<^verbatim>\<open>int(d.timestamp() * 1000)\<close>, a float product truncated to an
  integer.
\<close>

definition timestamp_ms :: "(int \<Rightarrow> int) \<Rightarrow> datetime \<Rightarrow> int" where
  "timestamp_ms local d = int_of_float (float_mul (timestamp local d) 1000)"

definition new_trial_data :: "(int \<Rightarrow> int) \<Rightarrow> datetime \<Rightarrow> datetime \<Rightarrow> string \<Rightarrow> trial_data" where
  "new_trial_data local now future_date new_id =
     \<lparr>trialStartTimestamp = timestamp_ms local now,
      trialEndTimestamp = timestamp_ms local future_date,
      hasUsedTrial = False,
      machineId = new_id\<rparr>"

text \<open>
  Everything in \<^verbatim>\<open>create_new_trial_info\<close> is inside one \<^verbatim>\<open>try\<close>; the only exception of
  the computation is the overflow of the date, reported by the print of line 129.
\<close>

definition create_new_trial_info :: "'w os \<Rightarrow> path \<Rightarrow> 'w \<Rightarrow> creation \<times> 'w" where
  "create_new_trial_info os path w =
     (case os_now os w of
        (now, w') \<Rightarrow>
          (case add_days now 90 of
             Inl e \<Rightarrow> (Generation_failed e, w')
           | Inr future_date \<Rightarrow>
               (case os_uuid4 os w' of
                  (new_id, w'') \<Rightarrow>
                    create_file_with_content os path
                      (json_dumps (new_trial_data (os_localtime os) now future_date new_id))
                      ''Created new trial info'' w'')))"

section \<open>A file system to run the script on\<close>

text \<open>
  One operating system to evaluate the script on: files and directories stored by path
  (no symbolic links, no devices), directories that refuse search permission to the
  user, and a supply of random tokens. A path with no component (the root, or the current
  directory) is always a directory.
\<close>

datatype node = File string | Dir

record world =
  files :: "path \<Rightarrow> node option"
  unsearchable :: "path list"
  tokens :: "nat \<Rightarrow> string"
  drawn :: nat
  clock :: datetime

definition lookup :: "world \<Rightarrow> path \<Rightarrow> node option" where
  "lookup w p = (if path_tail p = [] then Some Dir else files w p)"

definition holds_file :: "node option \<Rightarrow> bool" where
  "holds_file n = (case n of Some (File _) \<Rightarrow> True | _ \<Rightarrow> False)"

definition ancestors :: "path \<Rightarrow> path list" where
  "ancestors p =
     map (\<lambda>n. \<lparr>path_root = path_root p, path_tail = take n (path_tail p)\<rparr>)
       [1 ..< length (path_tail p)]"

definition stat_denied :: "world \<Rightarrow> path \<Rightarrow> bool" where
  "stat_denied w p = list_ex (\<lambda>d. d \<in> set (ancestors p)) (unsearchable w)"

definition fs_exists :: "path \<Rightarrow> world \<Rightarrow> exn + bool" where
  "fs_exists p w =
     (if stat_denied w p then Inl PermissionError else Inr (lookup w p \<noteq> None))"

definition fs_is_file :: "path \<Rightarrow> world \<Rightarrow> exn + bool" where
  "fs_is_file p w =
     (if stat_denied w p then Inl PermissionError
      else Inr (holds_file (lookup w p)))"

definition fs_is_symlink :: "path \<Rightarrow> world \<Rightarrow> exn + bool" where
  "fs_is_symlink p w = (if stat_denied w p then Inl PermissionError else Inr False)"

definition fs_is_dir :: "path \<Rightarrow> world \<Rightarrow> exn + bool" where
  "fs_is_dir p w =
     (if stat_denied w p then Inl PermissionError else Inr (lookup w p = Some Dir))"

definition fs_unlink :: "path \<Rightarrow> world \<Rightarrow> exn option \<times> world" where
  "fs_unlink p w =
     (if stat_denied w p then (Some PermissionError, w)
      else
        (case lookup w p of
           None \<Rightarrow> (Some FileNotFoundError, w)
         | Some Dir \<Rightarrow> (Some (OSError ''Is a directory''), w)
         | Some (File _) \<Rightarrow> (None, w\<lparr>files := (files w)(p := None)\<rparr>)))"

definition fs_rmtree :: "path \<Rightarrow> world \<Rightarrow> exn option \<times> world" where
  "fs_rmtree p w =
     (if stat_denied w p then (Some PermissionError, w)
      else
        (case lookup w p of
           None \<Rightarrow> (Some FileNotFoundError, w)
         | Some (File _) \<Rightarrow> (Some (OSError ''Not a directory''), w)
         | Some Dir \<Rightarrow>
             (None, w\<lparr>files := (\<lambda>q. if is_relative_to q p then None else files w q)\<rparr>)))"

definition fs_mkdir_parents :: "path \<Rightarrow> world \<Rightarrow> exn option \<times> world" where
  "fs_mkdir_parents p w =
     (if stat_denied w p then (Some PermissionError, w)
      else if list_ex (\<lambda>q. holds_file (lookup w q)) (ancestors p)
      then (Some (OSError ''Not a directory''), w)
      else if holds_file (lookup w p) then (Some (OSError ''File exists''), w)
      else
        (None, w\<lparr>files := (\<lambda>q. if (q = p \<or> q \<in> set (ancestors p)) \<and> lookup w q = None
                                 then Some Dir else files w q)\<rparr>))"

definition fs_write_text :: "path \<Rightarrow> string \<Rightarrow> world \<Rightarrow> exn option \<times> world" where
  "fs_write_text p content w =
     (if stat_denied w p then (Some PermissionError, w)
      else
        (case lookup w p of
           Some Dir \<Rightarrow> (Some (OSError ''Is a directory''), w)
         | _ \<Rightarrow>
            (case lookup w (parent p) of
               None \<Rightarrow> (Some FileNotFoundError, w)
             | Some (File _) \<Rightarrow> (Some (OSError ''Not a directory''), w)
             | Some Dir \<Rightarrow> (None, w\<lparr>files := (files w)(p := Some (File content))\<rparr>))))"

definition fs_uuid4 :: "world \<Rightarrow> string \<times> world" where
  "fs_uuid4 w = (tokens w (drawn w), w\<lparr>drawn := Suc (drawn w)\<rparr>)"

definition fs_now :: "world \<Rightarrow> datetime \<times> world" where
  "fs_now w = (clock w, w)"

text \<open>Two time zones: UTC, and Central European Time with the summer time of 2025.\<close>

definition utc :: "int \<Rightarrow> int" where
  "utc u = u"

definition europe_berlin_2025 :: "int \<Rightarrow> int" where
  "europe_berlin_2025 u =
     (if 1743296400 \<le> u \<and> u < 1761440400 then u + 7200 else u + 3600)"

definition fs :: "world os" where
  "fs = \<lparr>os_exists = fs_exists, os_is_file = fs_is_file, os_is_symlink = fs_is_symlink,
          os_is_dir = fs_is_dir, os_unlink = fs_unlink, os_rmtree = fs_rmtree,
          os_mkdir_parents = fs_mkdir_parents, os_write_text = fs_write_text,
          os_uuid4 = fs_uuid4, os_now = fs_now, os_localtime = utc\<rparr>"

section \<open>Where a path leads\<close>

text \<open>
  The gate is meant to keep deletions inside the home directory. The location a path
  leads to is obtained by following its \<^verbatim>\<open>..\<close> components (as \<^verbatim>\<open>os.path.normpath\<close> does:
  a \<^verbatim>\<open>..\<close> cancels the component before it, is dropped at the root, and is kept at the
  head of a relative path). These definitions state the intent; the gate itself never
  calls them.
\<close>

fun collapse_dotdot :: "bool \<Rightarrow> string list \<Rightarrow> string list \<Rightarrow> string list" where
  "collapse_dotdot rooted acc [] = rev acc"
| "collapse_dotdot rooted acc (x # xs) =
     (if x \<noteq> ''..'' \<or> (\<not> rooted \<and> acc = []) \<or> (acc \<noteq> [] \<and> hd acc = ''..'')
      then collapse_dotdot rooted (x # acc) xs
      else if acc \<noteq> [] then collapse_dotdot rooted (tl acc) xs
      else collapse_dotdot rooted acc xs)"

definition normpath :: "path \<Rightarrow> path" where
  "normpath p =
     \<lparr>path_root = path_root p,
      path_tail = collapse_dotdot (path_root p \<noteq> []) [] (path_tail p)\<rparr>"

definition outside_trust_root :: "path \<Rightarrow> path \<Rightarrow> bool" where
  "outside_trust_root candidate trust_root =
     (\<not> is_relative_to (normpath candidate) (normpath trust_root))"

definition inside_allowed_subtree :: "path \<Rightarrow> path \<Rightarrow> string list \<Rightarrow> bool" where
  "inside_allowed_subtree candidate trust_root allowed_bases =
     list_ex (\<lambda>base. is_relative_to candidate (joinpath trust_root base)) allowed_bases"

section \<open>Example inputs\<close>

text \<open>
  A Linux home directory after a first run: the cache directory of the application is
  there, its configuration directory is gone; the wall clock reads 2025-01-15
  12:00:00.123456. Paths are looked up as they are written. In \<open>locked_world\<close> the user
  may not search \<^verbatim>\<open>~/.config\<close> (as when it was created by another user), so \<^verbatim>\<open>stat\<close> on
  anything below it fails with EACCES. In \<open>guarded_world\<close> a report lies in a directory
  of the user's documents that the user may not search either.
\<close>

definition example_home :: path where
  "example_home = Path ''/home/user''"

definition example_world :: world where
  "example_world =
     \<lparr>files = [Path ''/etc'' \<mapsto> Dir, Path ''/etc/passwd'' \<mapsto> File ''root:x:0:0'',
                Path ''/home'' \<mapsto> Dir, Path ''/home/user'' \<mapsto> Dir,
                Path ''/home/user/.config'' \<mapsto> Dir,
                Path ''/home/user/.cache'' \<mapsto> Dir,
                Path ''/home/user/.cache/Cursor'' \<mapsto> Dir],
      unsearchable = [],
      tokens = (\<lambda>n. if n = 0 then ''0b5a3c1e-7d2f-4c60-9a41-5e8f2d6b7c90''
                     else ''f47ac10b-58cc-4372-a567-0e02b2c3d479''),
      drawn = 0,
      clock = \<lparr>wall_seconds = 1736942400, microsecond = 123456, fold = False\<rparr>\<rparr>"

definition locked_world :: world where
  "locked_world = example_world\<lparr>unsearchable := [Path ''/home/user/.config'']\<rparr>"

definition guarded_world :: world where
  "guarded_world =
     example_world
       \<lparr>files := (files example_world)
          (Path ''/home/user/Documents'' \<mapsto> Dir,
           Path ''/home/user/Documents/private'' \<mapsto> Dir,
           Path ''/home/user/Documents/private/report.txt'' \<mapsto> File ''figures''),
        unsearchable := [Path ''/home/user/Documents/private'']\<rparr>"

section \<open>Properties of the safety gate\<close>

lemma relative_to_self: "relative_to p p = Inr \<lparr>path_root = [], path_tail = []\<rparr>"
  by (simp add: relative_to_def)

lemma Path_dot: "Path ''.'' = \<lparr>path_root = [], path_tail = []\<rparr>"
  by (simp add: Path_def splitroot_def)

lemma relative_to_child:
  assumes "path_root p = path_root h" and "path_tail p = path_tail h @ ns"
  shows "relative_to p h = Inr \<lparr>path_root = [], path_tail = ns\<rparr>"
  using assms by (simp add: relative_to_def)

lemma join_sep_starts_with_head: "prefix x (join_sep c (x # xs))"
  by (cases xs) simp_all

lemma not_relative_is_unsafe:
  "\<not> is_relative_to p h \<Longrightarrow> \<not> is_safe_to_delete p h bases"
  by (simp add: is_safe_to_delete_def)

text \<open>
  C1. A candidate that leaves the home directory through \<^verbatim>\<open>..\<close> components is meant to
  be rejected. The gate compares components without following \<^verbatim>\<open>..\<close>:
  \<^verbatim>\<open>/home/user/.config/../../../etc/passwd\<close> leads to \<^verbatim>\<open>/etc/passwd\<close>, outside the home
  directory \<^verbatim>\<open>/home/user\<close>, and is judged safe to delete.
\<close>

theorem dotdot_escape_is_judged_safe:
  "normpath (Path ''/home/user/.config/../../../etc/passwd'') = Path ''/etc/passwd''
   \<and> outside_trust_root (Path ''/home/user/.config/../../../etc/passwd'') (Path ''/home/user'')
   \<and> is_safe_to_delete (Path ''/home/user/.config/../../../etc/passwd'')
         (Path ''/home/user'') (EXPECTED_BASES Linux)"
  by (simp add: is_safe_to_delete_def is_relative_to_def relative_to_def Path_def
      splitroot_def str_def startswith_def normpath_def outside_trust_root_def)

text \<open>
  C3. The gate does not require strict containment. For a candidate equal to the home
  directory the relative path is \<^verbatim>\<open>.\<close>, whose parent is \<^verbatim>\<open>.\<close> again, so the exception made
  for direct children of the home directory admits the home directory itself, whatever
  the allowed prefixes are.
\<close>

theorem trust_root_itself_is_judged_safe:
  "is_safe_to_delete home_dir home_dir allowed_bases"
  by (simp add: is_safe_to_delete_def is_relative_to_def relative_to_self Path_dot parent_def)

text \<open>
  C4. A candidate under the home directory whose relative path, as a string, begins with
  one of the allowed prefixes is judged safe.
\<close>

theorem allowed_prefix_is_safe:
  assumes "relative_to p h = Inr rel"
    and "base \<in> set bases"
    and "startswith (str rel) base"
  shows "is_safe_to_delete p h bases"
proof -
  have "list_ex (\<lambda>b. startswith (str rel) b) bases"
    using assms(2,3) by (auto simp: list_ex_iff)
  with assms(1) show ?thesis
    by (simp add: is_safe_to_delete_def is_relative_to_def)
qed

theorem allowed_prefix_is_safe_witness:
  "relative_to (Path ''/home/user/.config/Cursor/User/state.vscdb'') (Path ''/home/user'')
     = Inr (Path ''.config/Cursor/User/state.vscdb'')
   \<and> ''.config'' \<in> set (EXPECTED_BASES Linux)
   \<and> startswith (str (Path ''.config/Cursor/User/state.vscdb'')) ''.config''
   \<and> is_safe_to_delete (Path ''/home/user/.config/Cursor/User/state.vscdb'')
         (Path ''/home/user'') (EXPECTED_BASES Linux)"
proof -
  have r: "relative_to (Path ''/home/user/.config/Cursor/User/state.vscdb'')
             (Path ''/home/user'') = Inr (Path ''.config/Cursor/User/state.vscdb'')"
    by (simp add: relative_to_def Path_def splitroot_def)
  have b: "''.config'' \<in> set (EXPECTED_BASES Linux)"
    by simp
  have s: "startswith (str (Path ''.config/Cursor/User/state.vscdb'')) ''.config''"
    by (simp add: startswith_def str_def Path_def splitroot_def)
  from allowed_prefix_is_safe [OF r b s] r b s show ?thesis
    by blast
qed

text \<open>
  C5. A direct child of the home directory (its components are those of the home
  directory followed by exactly one name) is judged safe, whatever the allowed prefixes
  are, and so also when none of them matches.
\<close>

theorem direct_child_is_safe:
  assumes "path_root p = path_root h"
    and "path_tail p = path_tail h @ [name]"
  shows "is_safe_to_delete p h bases"
  using relative_to_child [OF assms]
  by (simp add: is_safe_to_delete_def is_relative_to_def parent_def Path_dot)

theorem direct_child_is_safe_witness:
  "path_root (Path ''/home/user/.cursor-machine-id'') = path_root (Path ''/home/user'')
   \<and> path_tail (Path ''/home/user/.cursor-machine-id'')
       = path_tail (Path ''/home/user'') @ [''.cursor-machine-id'']
   \<and> \<not> list_ex (\<lambda>base. startswith ''.cursor-machine-id'' base) (EXPECTED_BASES Linux)
   \<and> is_safe_to_delete (Path ''/home/user/.cursor-machine-id'')
         (Path ''/home/user'') (EXPECTED_BASES Linux)"
proof -
  have r: "path_root (Path ''/home/user/.cursor-machine-id'') = path_root (Path ''/home/user'')"
    by (simp add: Path_def splitroot_def)
  have t: "path_tail (Path ''/home/user/.cursor-machine-id'')
             = path_tail (Path ''/home/user'') @ [''.cursor-machine-id'']"
    by (simp add: Path_def splitroot_def)
  have n: "\<not> list_ex (\<lambda>base. startswith ''.cursor-machine-id'' base) (EXPECTED_BASES Linux)"
    by (simp add: startswith_def)
  from direct_child_is_safe [OF r t] r t n show ?thesis
    by blast
qed

text \<open>
  The prefix test is on strings, not on components: a name that merely extends an allowed
  prefix passes it, whatever follows.
\<close>

lemma name_extending_allowed_prefix_is_safe:
  assumes "base \<in> set bases"
    and "path_root p = path_root h"
    and "path_tail p = path_tail h @ (base @ ext) # rest"
  shows "is_safe_to_delete p h bases"
proof -
  let ?rel = "\<lparr>path_root = [], path_tail = (base @ ext) # rest\<rparr>"
  have pre: "prefix base (join_sep (CHR ''/'') ((base @ ext) # rest))"
    using join_sep_starts_with_head [of "base @ ext" "CHR ''/''" rest]
    by (meson prefixI prefix_order.trans)
  have "prefix base (str ?rel)"
  proof (cases "join_sep (CHR ''/'') ((base @ ext) # rest) = []")
    case True
    with pre have "base = []" by simp
    then show ?thesis by simp
  next
    case False
    with pre show ?thesis by (simp add: str_def)
  qed
  then have "list_ex (\<lambda>b. startswith (str ?rel) b) bases"
    using assms(1) by (auto simp: list_ex_iff startswith_def)
  with relative_to_child [OF assms(2,3)] show ?thesis
    by (simp add: is_safe_to_delete_def is_relative_to_def)
qed

text \<open>
  C10. The prefix test is on strings, not on path components. Every candidate whose
  first component below the home directory merely extends an allowed prefix is judged
  safe, whatever follows that component. One of them is \<^verbatim>\<open>~/.cache_other/data\<close> on Linux:
  it lies in none of the allowed subtrees, is not a direct child of the home directory,
  and is judged safe because its relative path begins with the string \<^verbatim>\<open>.cache\<close>.
\<close>

theorem name_extending_allowed_prefix_is_judged_safe:
  "(\<forall>allowed_bases base ext rest h p.
      base \<in> set allowed_bases \<and> path_root p = path_root h
      \<and> path_tail p = path_tail h @ (base @ ext) # rest
      \<longrightarrow> is_safe_to_delete p h allowed_bases)
   \<and> path_tail (Path ''/home/user/.cache_other/data'')
       = path_tail (Path ''/home/user'') @ (''.cache'' @ ''_other'') # [''data'']
   \<and> \<not> inside_allowed_subtree (Path ''/home/user/.cache_other/data'') (Path ''/home/user'')
         (EXPECTED_BASES Linux)
   \<and> parent (Path ''/home/user/.cache_other/data'') \<noteq> Path ''/home/user''
   \<and> is_safe_to_delete (Path ''/home/user/.cache_other/data'') (Path ''/home/user'')
         (EXPECTED_BASES Linux)"
proof -
  let ?p = "Path ''/home/user/.cache_other/data''"
  have all: "\<forall>allowed_bases base ext rest h p.
      base \<in> set allowed_bases \<and> path_root p = path_root h
      \<and> path_tail p = path_tail h @ (base @ ext) # rest
      \<longrightarrow> is_safe_to_delete p h allowed_bases"
    using name_extending_allowed_prefix_is_safe by blast
  have tail: "path_tail ?p = path_tail (Path ''/home/user'') @ (''.cache'' @ ''_other'') # [''data'']"
    by (simp add: Path_def splitroot_def)
  have outside: "\<not> inside_allowed_subtree ?p (Path ''/home/user'') (EXPECTED_BASES Linux)"
    by (simp add: inside_allowed_subtree_def is_relative_to_def relative_to_def joinpath_def
        Path_def splitroot_def)
  have deep: "parent ?p \<noteq> Path ''/home/user''"
    by (simp add: parent_def Path_def splitroot_def)
  have safe: "is_safe_to_delete ?p (Path ''/home/user'') (EXPECTED_BASES Linux)"
    by (rule name_extending_allowed_prefix_is_safe
          [where base = "''.cache''" and ext = "''_other''" and rest = "[''data'']"])
       (simp_all add: Path_def splitroot_def)
  from all tail outside deep safe show ?thesis
    by blast
qed

theorem name_extending_allowed_prefix_is_judged_safe_witness:
  "''.config'' \<in> set (EXPECTED_BASES Linux)
   \<and> path_tail (Path ''/home/user/.config.bak/Cursor/settings.json'')
       = path_tail (Path ''/home/user'') @ (''.config'' @ ''.bak'') # [''Cursor'', ''settings.json'']
   \<and> \<not> inside_allowed_subtree (Path ''/home/user/.config.bak/Cursor/settings.json'')
         (Path ''/home/user'') (EXPECTED_BASES Linux)
   \<and> is_safe_to_delete (Path ''/home/user/.config.bak/Cursor/settings.json'')
         (Path ''/home/user'') (EXPECTED_BASES Linux)"
proof -
  let ?p = "Path ''/home/user/.config.bak/Cursor/settings.json''"
  let ?h = "Path ''/home/user''"
  have b: "''.config'' \<in> set (EXPECTED_BASES Linux)"
    by simp
  have r: "path_root ?p = path_root ?h"
    by (simp add: Path_def splitroot_def)
  have t: "path_tail ?p = path_tail ?h @ (''.config'' @ ''.bak'') # [''Cursor'', ''settings.json'']"
    by (simp add: Path_def splitroot_def)
  have outside: "\<not> inside_allowed_subtree ?p ?h (EXPECTED_BASES Linux)"
    by (simp add: inside_allowed_subtree_def is_relative_to_def relative_to_def joinpath_def
        Path_def splitroot_def)
  from name_extending_allowed_prefix_is_judged_safe b r t
  have "is_safe_to_delete ?p ?h (EXPECTED_BASES Linux)"
    by blast
  with b t outside show ?thesis
    by blast
qed

section \<open>Properties of the guarded remover\<close>

text \<open>
  What holds of \<^verbatim>\<open>remove_path\<close> for every operating system. A candidate the gate rejects
  is never touched, and neither is one for which the existence test does not answer that
  it is there: the world is the one the call started in. When the test answers, the
  outcome is the one the test and the gate decide.
\<close>

lemma rejected_candidate_is_never_touched:
  assumes "\<not> is_safe_to_delete p h bases"
  shows "snd (remove_path os p h bases w) = w"
  using assms by (simp add: remove_path_def split: sum.splits bool.splits)

lemma unconfirmed_candidate_is_never_touched:
  assumes "os_exists os p w \<noteq> Inr True"
  shows "snd (remove_path os p h bases w) = w"
  using assms by (simp add: remove_path_def split: sum.splits bool.splits)

lemma unsafe_existing_path_is_untouched:
  assumes "os_exists os p w = Inr True"
    and "\<not> is_safe_to_delete p h bases"
  shows "remove_path os p h bases w = (Inr Skipped_unsafe, w)"
  using assms by (simp add: remove_path_def)

lemma absent_path_is_noop:
  assumes "os_exists os p w = Inr False"
  shows "remove_path os p h bases w = (Inr Skipped_absent, w)"
  using assms by (simp add: remove_path_def)

lemma existence_test_error_leaves_remove_path:
  assumes "os_exists os p w = Inl e"
  shows "remove_path os p h bases w = (Inl e, w)"
  using assms by (simp add: remove_path_def)

text \<open>
  C2. An existing candidate that the gate rejects is meant to be reported as
  skipped-unsafe. The report of \<open>guarded_world\<close> exists and is rejected by the gate, but
  the existence test of line 61, which stands before the \<^verbatim>\<open>try\<close>, cannot search its
  directory: the \<^verbatim>\<open>PermissionError\<close> leaves \<^verbatim>\<open>remove_path\<close> and nothing is reported.
  The file itself is left as it was.
\<close>

theorem unsafe_existing_path_raises_instead_of_skipping:
  "lookup guarded_world (Path ''/home/user/Documents/private/report.txt'')
     = Some (File ''figures'')
   \<and> \<not> is_safe_to_delete (Path ''/home/user/Documents/private/report.txt'')
         example_home (EXPECTED_BASES Linux)
   \<and> remove_path fs (Path ''/home/user/Documents/private/report.txt'')
         example_home (EXPECTED_BASES Linux) guarded_world
       = (Inl PermissionError, guarded_world)"
proof -
  have 1: "lookup guarded_world (Path ''/home/user/Documents/private/report.txt'')
             = Some (File ''figures'')"
    by (simp add: lookup_def guarded_world_def Path_def splitroot_def)
  have 2: "\<not> is_safe_to_delete (Path ''/home/user/Documents/private/report.txt'')
             example_home (EXPECTED_BASES Linux)"
    by (simp add: is_safe_to_delete_def is_relative_to_def relative_to_def example_home_def
        str_def startswith_def parent_def Path_def splitroot_def)
  have "os_exists fs (Path ''/home/user/Documents/private/report.txt'') guarded_world
          = Inl PermissionError"
    by (simp add: fs_def fs_exists_def stat_denied_def ancestors_def guarded_world_def
        Path_def splitroot_def)
  then have 3: "remove_path fs (Path ''/home/user/Documents/private/report.txt'')
                  example_home (EXPECTED_BASES Linux) guarded_world
                = (Inl PermissionError, guarded_world)"
    by (rule existence_test_error_leaves_remove_path)
  from 1 2 3 show ?thesis
    by blast
qed

text \<open>
  C6. A candidate that is not on disk is meant to be reported as skipped-absent. In
  \<open>locked_world\<close> there is no \<^verbatim>\<open>~/.config/cursor-electron\<close>, but the existence test cannot
  search \<^verbatim>\<open>~/.config\<close>: the \<^verbatim>\<open>PermissionError\<close> leaves \<^verbatim>\<open>remove_path\<close> and nothing is
  reported. The world is left as it was.
\<close>

theorem absent_path_raises_instead_of_skipping:
  "lookup locked_world (Path ''/home/user/.config/cursor-electron'') = None
   \<and> remove_path fs (Path ''/home/user/.config/cursor-electron'')
         example_home (EXPECTED_BASES Linux) locked_world
       = (Inl PermissionError, locked_world)"
proof -
  have 1: "lookup locked_world (Path ''/home/user/.config/cursor-electron'') = None"
    by (simp add: lookup_def locked_world_def example_world_def Path_def splitroot_def)
  have "os_exists fs (Path ''/home/user/.config/cursor-electron'') locked_world
          = Inl PermissionError"
    by (simp add: fs_def fs_exists_def stat_denied_def ancestors_def locked_world_def
        example_world_def Path_def splitroot_def)
  then have 2: "remove_path fs (Path ''/home/user/.config/cursor-electron'')
                  example_home (EXPECTED_BASES Linux) locked_world
                = (Inl PermissionError, locked_world)"
    by (rule existence_test_error_leaves_remove_path)
  from 1 2 show ?thesis
    by blast
qed

subsection \<open>Errors\<close>

text \<open>
  Once the existence test has answered, nothing leaves \<^verbatim>\<open>remove_path\<close>: every exception
  of the type tests and of the deletion calls is turned into an outcome, and the four
  kinds of failure stay apart.
\<close>

lemma remove_path_returns_outcome:
  assumes "os_exists os p w = Inr b"
  shows "\<exists>out w'. remove_path os p h bases w = (Inr out, w')"
  using assms by (cases b) (auto simp: remove_path_def split: prod.splits sum.splits)

lemma deletion_error_is_classified:
  assumes "os_exists os p w = Inr True"
    and "is_safe_to_delete p h bases"
    and "delete_by_type os p w = (Inl e, w')"
  shows "remove_path os p h bases w = (Inr (deletion_failure e), w')"
  using assms by (simp add: remove_path_def)

lemma deletion_failure_kinds:
  "deletion_failure e = Path_already_gone \<longleftrightarrow> e = FileNotFoundError"
  "deletion_failure e = Permission_denied \<longleftrightarrow> e = PermissionError"
  "deletion_failure e = OS_error e' \<longleftrightarrow> e = e' \<and> (\<exists>reason. e = OSError reason)"
  "deletion_failure e = Unexpected_error e' \<longleftrightarrow>
     e = e' \<and> e \<noteq> FileNotFoundError \<and> e \<noteq> PermissionError \<and> (\<forall>r. e \<noteq> OSError r)"
  by (cases e; auto)+

lemma remove_paths_visits_all:
  assumes "\<And>p w. \<exists>b. os_exists os p w = Inr b"
  shows "\<exists>outs w'. remove_paths os ps h bases w = (Inr outs, w') \<and> length outs = length ps"
proof (induction ps arbitrary: w)
  case Nil
  then show ?case by simp
next
  case (Cons p ps)
  obtain b where "os_exists os p w = Inr b"
    using assms by blast
  then obtain out w1 where 1: "remove_path os p h bases w = (Inr out, w1)"
    using remove_path_returns_outcome [of os p w b h bases] by blast
  obtain outs w2 where 2: "remove_paths os ps h bases w1 = (Inr outs, w2)"
      "length outs = length ps"
    using Cons.IH by blast
  from 1 2 show ?case by simp
qed

text \<open>
  C7. No exception is meant to leave \<^verbatim>\<open>remove_path\<close>. The existence test of line 61
  stands before the \<^verbatim>\<open>try\<close>: when \<^verbatim>\<open>~/.config\<close> refuses search permission, the test on
  \<^verbatim>\<open>~/.config/Cursor\<close> raises \<^verbatim>\<open>PermissionError\<close>, which leaves \<^verbatim>\<open>remove_path\<close> and ends
  the loop. The candidate \<^verbatim>\<open>~/.cache/Cursor\<close> after it, which would have been deleted, is
  never visited.
\<close>

theorem existence_test_error_aborts_sweep:
  "remove_path fs (Path ''/home/user/.config/Cursor'') example_home (EXPECTED_BASES Linux)
       locked_world
     = (Inl PermissionError, locked_world)
   \<and> remove_paths fs [Path ''/home/user/.config/Cursor'', Path ''/home/user/.cache/Cursor'']
         example_home (EXPECTED_BASES Linux) locked_world
       = (Inl PermissionError, locked_world)
   \<and> fst (remove_paths fs [Path ''/home/user/.cache/Cursor'']
            example_home (EXPECTED_BASES Linux) locked_world)
       = Inr [Deleted_directory]"
proof -
  have 1: "remove_path fs (Path ''/home/user/.config/Cursor'') example_home
             (EXPECTED_BASES Linux) locked_world = (Inl PermissionError, locked_world)"
    by (simp add: remove_path_def fs_def fs_exists_def stat_denied_def ancestors_def
        locked_world_def example_world_def Path_def splitroot_def)
  have 2: "fst (remove_path fs (Path ''/home/user/.cache/Cursor'') example_home
             (EXPECTED_BASES Linux) locked_world) = Inr Deleted_directory"
    by (simp add: remove_path_def delete_by_type_def fs_def fs_exists_def fs_is_file_def
        fs_is_symlink_def fs_is_dir_def fs_rmtree_def stat_denied_def ancestors_def
        lookup_def holds_file_def locked_world_def example_world_def example_home_def
        is_safe_to_delete_def is_relative_to_def relative_to_def str_def startswith_def
        Path_def splitroot_def)
  from 1 have 3: "remove_paths fs
      [Path ''/home/user/.config/Cursor'', Path ''/home/user/.cache/Cursor'']
      example_home (EXPECTED_BASES Linux) locked_world = (Inl PermissionError, locked_world)"
    by simp
  from 2 obtain w' where "remove_path fs (Path ''/home/user/.cache/Cursor'') example_home
      (EXPECTED_BASES Linux) locked_world = (Inr Deleted_directory, w')"
    by (metis fst_conv surj_pair)
  then have 4: "fst (remove_paths fs [Path ''/home/user/.cache/Cursor'']
      example_home (EXPECTED_BASES Linux) locked_world) = Inr [Deleted_directory]"
    by simp
  from 1 3 4 show ?thesis
    by blast
qed

section \<open>Properties of the file writers\<close>

lemma ancestors_shorter:
  "a \<in> set (ancestors p) \<Longrightarrow> length (path_tail a) < length (path_tail p)"
  by (auto simp: ancestors_def)

lemma parent_shorter:
  "path_tail p \<noteq> [] \<Longrightarrow> length (path_tail (parent p)) < length (path_tail p)"
  by (simp add: parent_def)

lemma ancestors_parent:
  assumes "a \<in> set (ancestors p)"
  shows "a = parent p \<or> a \<in> set (ancestors (parent p))"
proof -
  from assms obtain n where n: "1 \<le> n" "n < length (path_tail p)"
    and a: "a = \<lparr>path_root = path_root p, path_tail = take n (path_tail p)\<rparr>"
    by (auto simp: ancestors_def)
  then have ne: "path_tail p \<noteq> []"
    by auto
  show ?thesis
  proof (cases "Suc n = length (path_tail p)")
    case True
    then have "take n (path_tail p) = butlast (path_tail p)"
      by (metis butlast_conv_take diff_Suc_1)
    with a ne show ?thesis
      by (simp add: parent_def)
  next
    case False
    with n have lt: "n < length (path_tail p) - 1"
      by simp
    then have "take n (path_tail p) = take n (butlast (path_tail p))"
      by (simp add: take_butlast)
    with a ne n lt show ?thesis
      by (auto simp: parent_def ancestors_def image_iff intro!: bexI [of _ n])
  qed
qed

lemma mkdir_parents_ok:
  assumes "fs_mkdir_parents d w = (None, w1)"
  shows "lookup w1 d = Some Dir"
    and "\<And>a. a \<in> set (ancestors d) \<Longrightarrow> lookup w1 a = Some Dir"
proof -
  have nf: "\<not> holds_file (lookup w d)"
      "\<And>a. a \<in> set (ancestors d) \<Longrightarrow> \<not> holds_file (lookup w a)"
    using assms by (auto simp: fs_mkdir_parents_def list_ex_iff split: if_splits)
  have w1: "files w1 = (\<lambda>q. if (q = d \<or> q \<in> set (ancestors d)) \<and> lookup w q = None
                              then Some Dir else files w q)"
    using assms by (auto simp: fs_mkdir_parents_def split: if_splits)
  have *: "lookup w1 q = Some Dir"
    if "q = d \<or> q \<in> set (ancestors d)" "\<not> holds_file (lookup w q)" for q
    using that w1 by (cases "lookup w q"; cases "path_tail q = []")
      (auto simp: lookup_def holds_file_def split: node.splits)
  show "lookup w1 d = Some Dir"
    using * nf by blast
  show "\<And>a. a \<in> set (ancestors d) \<Longrightarrow> lookup w1 a = Some Dir"
    using * nf by blast
qed

lemma write_text_ok:
  assumes "fs_write_text p c w1 = (None, w2)"
  shows "path_tail p \<noteq> []" and "files w2 = (files w1)(p := Some (File c))"
  using assms
  by (auto simp: fs_write_text_def lookup_def split: if_splits option.splits node.splits)

lemma creation_failure_not_created: "creation_failure e \<noteq> Created d p"
  by (cases e) simp_all

text \<open>
  For every operating system: the file is written only after the parent directory has
  been made, in the world that call left, and a failure of either call is reported
  instead of raised.
\<close>

lemma creation_order:
  "create_file_with_content os p c d w = (Created d p, w') \<longleftrightarrow>
     (\<exists>w1. os_mkdir_parents os (parent p) w = (None, w1) \<and> os_write_text os p c w1 = (None, w'))"
  by (auto simp: create_file_with_content_def creation_failure_not_created
      split: prod.splits option.splits)

lemma mkdir_failure_skips_write:
  assumes "os_mkdir_parents os (parent p) w = (Some e, w1)"
  shows "create_file_with_content os p c d w = (creation_failure e, w1)"
  using assms by (simp add: create_file_with_content_def)

lemma created_file:
  assumes "create_file_with_content fs p c d w = (Created d p, w')"
  shows "files w' p = Some (File c)
         \<and> (\<forall>a \<in> set (parent p # ancestors p). lookup w' a = Some Dir)"
proof -
  obtain w1 where m: "fs_mkdir_parents (parent p) w = (None, w1)"
    and wr: "fs_write_text p c w1 = (None, w')"
    using assms by (auto simp: creation_order fs_def)
  note mk = mkdir_parents_ok [OF m]
  note wt = write_text_ok [OF wr]
  have dirs: "lookup w1 a = Some Dir" if "a \<in> set (parent p # ancestors p)" for a
    using that mk ancestors_parent [of a p] by auto
  have neq: "a \<noteq> p" if "a \<in> set (parent p # ancestors p)" for a
    using that ancestors_shorter [of a p] parent_shorter [OF wt(1)] by auto
  have "lookup w' a = lookup w1 a" if "a \<in> set (parent p # ancestors p)" for a
    using neq [OF that] wt(2) by (simp add: lookup_def)
  with dirs wt(2) show ?thesis
    by simp
qed

text \<open>
  C9. When a file writer reports success, the parent directory and every directory above
  it exist, and the file holds exactly the content given: for \<^verbatim>\<open>create_new_machine_id\<close>
  that content is the token just drawn from the generator, and nothing else.
\<close>

theorem created_file_holds_full_content:
  "(create_file_with_content fs p c d w = (Created d p, w') \<longrightarrow>
      files w' p = Some (File c)
      \<and> (\<forall>a \<in> set (parent p # ancestors p). lookup w' a = Some Dir))
   \<and> (create_new_machine_id fs p w = (Created ''Created new machine ID'' p, w') \<longrightarrow>
      files w' p = Some (File (tokens w (drawn w)))
      \<and> drawn w' = Suc (drawn w)
      \<and> (\<forall>a \<in> set (parent p # ancestors p). lookup w' a = Some Dir))"
proof (intro conjI impI)
  assume "create_file_with_content fs p c d w = (Created d p, w')"
  from created_file [OF this]
  show "files w' p = Some (File c)"
    and "\<forall>a \<in> set (parent p # ancestors p). lookup w' a = Some Dir"
    by blast+
next
  assume a: "create_new_machine_id fs p w = (Created ''Created new machine ID'' p, w')"
  let ?w1 = "w\<lparr>drawn := Suc (drawn w)\<rparr>"
  from a have c: "create_file_with_content fs p (tokens w (drawn w))
                    ''Created new machine ID'' ?w1
                  = (Created ''Created new machine ID'' p, w')"
    by (simp add: create_new_machine_id_def fs_def fs_uuid4_def)
  from created_file [OF c]
  show "files w' p = Some (File (tokens w (drawn w)))"
    and "\<forall>a \<in> set (parent p # ancestors p). lookup w' a = Some Dir"
    by blast+
  from c obtain w1 where "fs_mkdir_parents (parent p) ?w1 = (None, w1)"
    and "fs_write_text p (tokens w (drawn w)) w1 = (None, w')"
    by (auto simp: creation_order fs_def)
  then show "drawn w' = Suc (drawn w)"
    by (auto simp: fs_mkdir_parents_def fs_write_text_def
        split: if_splits option.splits node.splits)
qed

theorem created_file_holds_full_content_witness:
  "fst (create_file_with_content fs (Path ''/home/user/.config/Cursor/trial_info.json'')
          ''{}'' ''Created new trial info'' example_world)
     = Created ''Created new trial info'' (Path ''/home/user/.config/Cursor/trial_info.json'')
   \<and> files (snd (create_file_with_content fs
                   (Path ''/home/user/.config/Cursor/trial_info.json'')
                   ''{}'' ''Created new trial info'' example_world))
         (Path ''/home/user/.config/Cursor/trial_info.json'')
       = Some (File ''{}'')
   \<and> fst (create_new_machine_id fs (Path ''/home/user/.config/Cursor/machineid'')
            example_world)
       = Created ''Created new machine ID'' (Path ''/home/user/.config/Cursor/machineid'')
   \<and> files (snd (create_new_machine_id fs (Path ''/home/user/.config/Cursor/machineid'')
                   example_world))
         (Path ''/home/user/.config/Cursor/machineid'')
       = Some (File ''0b5a3c1e-7d2f-4c60-9a41-5e8f2d6b7c90'')"
proof -
  let ?t = "Path ''/home/user/.config/Cursor/trial_info.json''"
  let ?m = "Path ''/home/user/.config/Cursor/machineid''"
  let ?rt = "create_file_with_content fs ?t ''{}'' ''Created new trial info'' example_world"
  let ?rm = "create_new_machine_id fs ?m example_world"
  have t: "fst ?rt = Created ''Created new trial info'' ?t"
    by (simp add: fs_def create_file_with_content_def fs_mkdir_parents_def fs_write_text_def
        stat_denied_def lookup_def holds_file_def ancestors_def parent_def example_world_def
        Path_def splitroot_def)
  have m: "fst ?rm = Created ''Created new machine ID'' ?m"
    by (simp add: fs_def fs_uuid4_def create_file_with_content_def create_new_machine_id_def
        fs_mkdir_parents_def fs_write_text_def stat_denied_def lookup_def holds_file_def
        ancestors_def parent_def example_world_def Path_def splitroot_def)
  from t have t': "?rt = (Created ''Created new trial info'' ?t, snd ?rt)"
    by (simp add: prod_eq_iff)
  from m have m': "?rm = (Created ''Created new machine ID'' ?m, snd ?rm)"
    by (simp add: prod_eq_iff)
  have tok: "tokens example_world (drawn example_world) = ''0b5a3c1e-7d2f-4c60-9a41-5e8f2d6b7c90''"
    by (simp add: example_world_def)
  from created_file_holds_full_content
         [of ?t "''{}''" "''Created new trial info''" example_world "snd ?rt"] t'
  have 1: "files (snd ?rt) ?t = Some (File ''{}'')"
    by blast
  from created_file_holds_full_content [of ?m _ _ example_world "snd ?rm"] m' tok
  have 2: "files (snd ?rm) ?m = Some (File ''0b5a3c1e-7d2f-4c60-9a41-5e8f2d6b7c90'')"
    by simp
  from t m 1 2 show ?thesis
    by blast
qed

section \<open>Properties of floating-point rounding\<close>

text \<open>The exponent found by \<open>expo\<close> is the one that brackets its argument.\<close>

lemma ilog2_bounds: "0 < n \<Longrightarrow> 2 ^ ilog2 n \<le> n \<and> n < 2 * 2 ^ ilog2 n"
proof (induction n rule: ilog2.induct)
  case (1 n)
  show ?case
  proof (cases "n < 2")
    case True
    with "1.prems" show ?thesis by (simp add: ilog2.simps [of n])
  next
    case False
    then have "0 < n div 2" by simp
    with "1.IH" False have ih: "2 ^ ilog2 (n div 2) \<le> n div 2" "n div 2 < 2 * 2 ^ ilog2 (n div 2)"
      by auto
    from False have eq: "ilog2 n = Suc (ilog2 (n div 2))" by (simp add: ilog2.simps [of n])
    from ih show ?thesis unfolding eq by simp linarith
  qed
qed

lemma two_power_le_of_nat: "2 ^ k \<le> n \<Longrightarrow> (2::rat) ^ k \<le> of_nat n"
proof -
  assume "2 ^ k \<le> n"
  then have "(of_nat (2 ^ k) :: rat) \<le> of_nat n" by (simp only: of_nat_le_iff)
  then show ?thesis by simp
qed

lemma of_nat_less_two_power: "n < 2 * 2 ^ k \<Longrightarrow> (of_nat n :: rat) + 1 \<le> 2 * 2 ^ k"
proof -
  assume "n < 2 * 2 ^ k"
  then have "n + 1 \<le> 2 * 2 ^ k" by simp
  then have "(of_nat (n + 1) :: rat) \<le> of_nat (2 * 2 ^ k)" by (simp only: of_nat_le_iff)
  then show ?thesis by simp
qed

lemma expo_ge1:
  assumes "1 \<le> x"
  shows "2 powi (expo x) \<le> x \<and> x < 2 powi (expo x + 1)"
proof -
  define n where "n = nat \<lfloor>x\<rfloor>"
  from assms have fl1: "1 \<le> \<lfloor>x\<rfloor>" by simp
  then have n0: "0 < n" unfolding n_def by simp
  from fl1 have "of_nat n = (of_int \<lfloor>x\<rfloor> :: rat)" unfolding n_def by simp
  then have n1: "of_nat n \<le> x" and n2: "x < of_nat n + 1" by linarith+
  from ilog2_bounds [OF n0] have b: "2 ^ ilog2 n \<le> n" "n < 2 * 2 ^ ilog2 n" by auto
  note b1 = two_power_le_of_nat [OF b(1)]
  note b2 = of_nat_less_two_power [OF b(2)]
  have e: "expo x = int (ilog2 n)" using assms by (simp add: expo_def n_def)
  have p1: "(2::rat) powi (expo x) = 2 ^ ilog2 n" unfolding e by simp
  have p2: "(2::rat) powi (expo x + 1) = 2 * 2 ^ ilog2 n"
    unfolding e by (simp add: power_int_add)
  from b1 b2 n1 n2 show ?thesis unfolding p1 p2 by linarith
qed

lemma expo_lt1:
  assumes "0 < x" and "x < 1"
  shows "2 powi (expo x) \<le> x \<and> x < 2 powi (expo x + 1)"
proof -
  define c where "c = nat (\<lceil>1 / x\<rceil> - 1)"
  from assms have "1 < 1 / x" by (simp add: field_simps)
  then have c2: "2 \<le> \<lceil>1 / x\<rceil>" by linarith
  then have c0: "0 < c" unfolding c_def by simp
  from c2 have "0 \<le> \<lceil>1 / x\<rceil> - 1" by linarith
  then have "of_nat c = (of_int (\<lceil>1 / x\<rceil> - 1) :: rat)"
    unfolding c_def by (simp only: of_nat_nat)
  then have "of_nat c = (of_int \<lceil>1 / x\<rceil> :: rat) - 1" by (simp only: of_int_diff of_int_1)
  then have c1: "of_nat c < 1 / x" and c3: "1 / x \<le> of_nat c + 1" by linarith+
  from ilog2_bounds [OF c0] have b: "2 ^ ilog2 c \<le> c" "c < 2 * 2 ^ ilog2 c" by auto
  note b1 = two_power_le_of_nat [OF b(1)]
  note b2 = of_nat_less_two_power [OF b(2)]
  have e: "expo x = - int (Suc (ilog2 c))" using assms by (simp add: expo_def c_def)
  have "(2::rat) powi (- int (Suc (ilog2 c))) = inverse (2 powi int (Suc (ilog2 c)))"
    by (rule power_int_minus)
  also have "\<dots> = inverse (2 ^ Suc (ilog2 c))"
    by (simp only: power_int_of_nat)
  also have "\<dots> = 1 / (2 * 2 ^ ilog2 c)"
    by (simp add: inverse_eq_divide)
  finally have p1: "(2::rat) powi (expo x) = 1 / (2 * 2 ^ ilog2 c)"
    unfolding e .
  have e1: "expo x + 1 = - int (ilog2 c)" unfolding e by simp
  have "(2::rat) powi (- int (ilog2 c)) = inverse (2 powi int (ilog2 c))"
    by (rule power_int_minus)
  also have "\<dots> = inverse (2 ^ ilog2 c)"
    by (simp only: power_int_of_nat)
  also have "\<dots> = 1 / (2 ^ ilog2 c)"
    by (simp add: inverse_eq_divide)
  finally have p2: "(2::rat) powi (expo x + 1) = 1 / (2 ^ ilog2 c)"
    unfolding e1 .
  from b1 c1 have "2 ^ ilog2 c < 1 / x" by linarith
  with assms(1) have "2 ^ ilog2 c * x < 1" by (simp add: field_simps)
  then have u: "x < 1 / 2 ^ ilog2 c" by (simp add: field_simps)
  from b2 c3 have "1 / x \<le> 2 * 2 ^ ilog2 c" by linarith
  with assms(1) have "1 \<le> 2 * 2 ^ ilog2 c * x" by (simp add: field_simps)
  then have l: "1 / (2 * 2 ^ ilog2 c) \<le> x" by (simp add: field_simps)
  from u l show ?thesis unfolding p1 p2 by simp
qed

lemma expo_bounds:
  assumes "0 < x"
  shows "2 powi (expo x) \<le> x" and "x < 2 powi (expo x + 1)"
  using expo_ge1 [of x] expo_lt1 [of x] assms by (cases "1 \<le> x"; simp)+

lemma expo_eqI:
  assumes "2 powi n \<le> x" and "x < 2 powi (n + 1)"
  shows "expo x = n"
proof -
  have "0 < (2::rat) powi n" by simp
  with assms(1) have x: "0 < x" by linarith
  note b = expo_bounds [OF x]
  from b(1) assms(2) have lt1: "(2::rat) powi (expo x) < 2 powi (n + 1)" by linarith
  have 1: "expo x < n + 1"
  proof (rule ccontr)
    assume "\<not> expo x < n + 1"
    then have "n + 1 \<le> expo x" by simp
    then have "(2::rat) powi (n + 1) \<le> 2 powi (expo x)"
      by (rule power_int_increasing) simp
    with lt1 show False by linarith
  qed
  from b(2) assms(1) have lt2: "(2::rat) powi n < 2 powi (expo x + 1)" by linarith
  have 2: "n < expo x + 1"
  proof (rule ccontr)
    assume "\<not> n < expo x + 1"
    then have "expo x + 1 \<le> n" by simp
    then have "(2::rat) powi (expo x + 1) \<le> 2 powi n"
      by (rule power_int_increasing) simp
    with lt2 show False by linarith
  qed
  from 1 2 show ?thesis by simp
qed

text \<open>
  Rounding to the nearest integer errs by at most a half, and returns an integer that is
  nearer than a half. Hence the error of \<open>fl\<close> is at most half a unit in the last place,
  and integers below \<open>2 ^ 53\<close> are doubles.
\<close>

lemma rne_close: "\<bar>of_int (rne y) - y\<bar> \<le> 1 / 2"
proof -
  have "of_int \<lfloor>y\<rfloor> \<le> y" "y < of_int \<lfloor>y\<rfloor> + 1" by linarith+
  then show ?thesis by (auto simp: rne_def Let_def)
qed

lemma rne_eqI:
  assumes "\<bar>y - of_int k\<bar> < 1 / 2"
  shows "rne y = k"
proof (cases "of_int k \<le> y")
  case True
  with assms have "y < of_int k + 1" by linarith
  with True have f: "\<lfloor>y\<rfloor> = k" by linarith
  from assms True have "y - of_int k < 1 / 2" by linarith
  with f show ?thesis by (simp add: rne_def Let_def)
next
  case False
  with assms have "of_int (k - 1) \<le> y" "y < of_int (k - 1) + 1" by auto
  then have f: "\<lfloor>y\<rfloor> = k - 1" by linarith
  from assms False have "1 / 2 < y - of_int (k - 1)" by auto
  with f show ?thesis by (simp add: rne_def Let_def)
qed

lemma rne_of_int: "rne (of_int k) = k"
  by (rule rne_eqI) simp

lemma rounding_error:
  assumes "0 < u"
  shows "\<bar>of_int (rne (x / u)) * u - x\<bar> \<le> u / 2"
proof -
  have "of_int (rne (x / u)) * u - x = (of_int (rne (x / u)) - x / u) * u"
    using assms by (simp add: field_simps)
  then have "\<bar>of_int (rne (x / u)) * u - x\<bar> = \<bar>of_int (rne (x / u)) - x / u\<bar> * u"
    using assms by (simp add: abs_mult)
  also have "\<dots> \<le> (1 / 2) * u"
    using rne_close [of "x / u"] assms by (intro mult_right_mono) simp_all
  finally show ?thesis by simp
qed

lemma fl_at:
  assumes "2 powi n \<le> x" and "x < 2 powi (n + 1)"
  shows "fl x = of_int (rne (x / 2 powi (n - 52))) * 2 powi (n - 52)"
proof -
  have "0 < (2::rat) powi n" by simp
  with assms(1) have x: "0 < x" by linarith
  from expo_eqI [OF assms] x show ?thesis by (simp add: fl_def Let_def)
qed

lemma fl_error:
  assumes "2 powi n \<le> x" and "x < 2 powi (n + 1)"
  shows "\<bar>fl x - x\<bar> \<le> 2 powi (n - 52) / 2"
  unfolding fl_at [OF assms] by (rule rounding_error) simp

lemma fl_zero: "fl 0 = 0"
  by (simp add: fl_def)

lemma fl_of_nat:
  assumes "n < 2 ^ 53"
  shows "fl (of_nat n) = of_nat n"
proof (cases "n = 0")
  case True
  then show ?thesis by (simp add: fl_zero)
next
  case False
  define x :: rat where "x = of_nat n"
  define e where "e = expo x"
  from False have x1: "1 \<le> x" unfolding x_def by simp
  then have x0: "0 < x" by simp
  note b = expo_bounds [OF x0, folded e_def]
  have e0: "0 \<le> e" using x1 unfolding e_def by (simp add: expo_def)
  from assms have "(of_nat n :: rat) < of_nat (2 ^ 53)" by (simp only: of_nat_less_iff)
  then have xlt: "x < 2 powi 53" unfolding x_def by simp
  have e52: "e \<le> 52"
  proof (rule ccontr)
    assume "\<not> e \<le> 52"
    then have "53 \<le> e" by simp
    then have "(2::rat) powi 53 \<le> 2 powi e" by (rule power_int_increasing) simp
    with b(1) xlt show False by linarith
  qed
  define m where "m = nat (52 - e)"
  have em: "e - 52 = - int m" using e52 unfolding m_def by simp
  have u: "(2::rat) powi (e - 52) = inverse (2 ^ m)"
    unfolding em by (simp only: power_int_minus power_int_of_nat)
  have q: "x / inverse (2 ^ m) = of_int (int n * 2 ^ m)"
    unfolding x_def by (simp add: field_simps)
  have "fl x = of_int (rne (x / 2 powi (e - 52))) * 2 powi (e - 52)"
    using b by (rule fl_at)
  also have "\<dots> = of_int (int n * 2 ^ m) * inverse (2 ^ m)"
    unfolding u q rne_of_int ..
  also have "\<dots> = x"
    unfolding x_def by (simp add: field_simps)
  finally show ?thesis unfolding x_def .
qed

text \<open>
  Seconds between \<open>2 ^ 40 / 1000\<close> and \<open>2 ^ 31\<close> (the years 2004 to 2038): the sum of
  the seconds and the fraction is rounded to a multiple of \<open>2 ^ - 22\<close>, the product with
  1000 to a multiple of \<open>2 ^ - 12\<close>, and the two errors together stay below a quarter of
  a millisecond. A whole number of milliseconds is restored by the second rounding, any
  other value is truncated to the millisecond below it: the result is exact.
\<close>

lemma fl_fraction_error:
  assumes "0 \<le> q" and "q < 1"
  shows "\<bar>fl q - q\<bar> \<le> 1 / 18014398509481984"
proof (cases "q = 0")
  case True
  then show ?thesis by (simp add: fl_zero)
next
  case False
  with assms have q0: "0 < q" by simp
  define e where "e = expo q"
  note b = expo_bounds [OF q0, folded e_def]
  have e: "e \<le> - 1"
  proof (rule ccontr)
    assume "\<not> e \<le> - 1"
    then have "0 \<le> e" by simp
    then have "(2::rat) powi 0 \<le> 2 powi e" by (rule power_int_increasing) simp
    with b(1) assms(2) show False by simp
  qed
  then have "e - 52 \<le> - 53" by simp
  then have "(2::rat) powi (e - 52) \<le> 2 powi (- 53)" by (rule power_int_increasing) simp
  also have "(2::rat) powi (- 53) = 1 / 9007199254740992" by (simp add: inverse_eq_divide)
  finally have u: "(2::rat) powi (e - 52) \<le> 1 / 9007199254740992" .
  from fl_error [OF b] u show ?thesis by linarith
qed

lemma two_powi_consts:
  "(2::rat) powi 30 = 1073741824"
  "(2::rat) powi (30 + 1) = 2147483648"
  "(2::rat) powi (30 - 52) = 1 / 4194304"
  "(2::rat) powi 40 = 1099511627776"
  "(2::rat) powi (40 + 1) = 2199023255552"
  "(2::rat) powi (40 - 52) = 1 / 4096"
  by (simp_all add: inverse_eq_divide)

lemma milliseconds_exact:
  assumes s1: "1099511628 \<le> s" and s2: "s < 2147483647" and us: "us < 1000000"
  shows "int_of_float (float_mul (float_add (float_of_int s)
           (float_div (float_of_int (int us)) 1000000)) 1000)
         = 1000 * s + int (us div 1000)"
proof -
  define q :: rat where "q = of_nat us / 1000000"
  define F where "F = fl q"
  define x where "x = of_int s + F"
  define T where "T = fl x"
  define y where "y = T * 1000"
  define M where "M = fl y"
  define K where "K = 1000 * s + int (us div 1000)"
  define r where "r = us mod 1000"
  have S1: "(1099511628::rat) \<le> of_int s" using s1 by linarith
  have S2: "(of_int s :: rat) \<le> 2147483646" using s2 by linarith
  have us': "(of_nat us :: rat) \<le> 999999" using us by linarith
  have q0: "0 \<le> q" unfolding q_def by simp
  have q1: "q \<le> 999999 / 1000000" unfolding q_def using us' by simp
  then have q1': "q < 1" by simp
  have Fq: "\<bar>F - q\<bar> \<le> 1 / 18014398509481984"
    unfolding F_def using q0 q1' by (rule fl_fraction_error)

  have "us < 2 ^ 53" using us by simp
  then have fus: "fl (of_nat us) = of_nat us" by (rule fl_of_nat)
  have "nat s < 2 ^ 53" using s2 by simp
  then have "fl (of_nat (nat s)) = of_nat (nat s)" by (rule fl_of_nat)
  moreover have "(of_nat (nat s) :: rat) = of_int s" using s1 by simp
  ultimately have fs: "fl (of_int s) = of_int s" by simp
  have ts: "int_of_float (float_mul (float_add (float_of_int s)
           (float_div (float_of_int (int us)) 1000000)) 1000) = int_of_float M"
    unfolding float_mul_def float_add_def float_div_def float_of_int_def of_int_of_nat_eq
      fus fs M_def y_def T_def x_def F_def q_def ..

  have x1: "2 powi 30 \<le> x" unfolding two_powi_consts x_def using S1 Fq q0 by linarith
  have x2: "x < 2 powi (30 + 1)" unfolding two_powi_consts x_def using S2 Fq q1 by linarith
  have Tx: "\<bar>T - x\<bar> \<le> 1 / 8388608"
    using fl_error [OF x1 x2] unfolding two_powi_consts T_def by simp
  have y1: "2 powi 40 \<le> y" unfolding two_powi_consts y_def x_def
    using Tx S1 Fq q0 unfolding x_def by linarith
  have y2: "y < 2 powi (40 + 1)" unfolding two_powi_consts y_def
    using Tx S2 Fq q1 unfolding x_def by linarith
  have My: "\<bar>M - y\<bar> \<le> 1 / 8192"
    using fl_error [OF y1 y2] unfolding two_powi_consts M_def by simp
  have Mrne: "M = of_int (rne (y / (1 / 4096))) * (1 / 4096)"
    using fl_at [OF y1 y2] unfolding two_powi_consts M_def .

  have usr: "(of_nat us :: rat) = 1000 * of_nat (us div 1000) + of_nat r"
    unfolding r_def by (metis mult_div_mod_eq of_nat_add of_nat_mult of_nat_numeral)
  have Kq: "(of_int K :: rat) + of_nat r / 1000 = 1000 * (of_int s + q)"
    unfolding K_def q_def usr by simp
  have d: "\<bar>T - (of_int s + q)\<bar> \<le> 1 / 8388608 + 1 / 18014398509481984"
    using Tx Fq unfolding x_def by linarith
  have "y - 1000 * (of_int s + q) = 1000 * (T - (of_int s + q))"
    unfolding y_def by (simp add: algebra_simps)
  then have "\<bar>y - 1000 * (of_int s + q)\<bar> = \<bar>1000 * (T - (of_int s + q))\<bar>"
    by (rule arg_cong)
  also have "\<dots> = 1000 * \<bar>T - (of_int s + q)\<bar>"
    by (simp only: abs_mult abs_numeral)
  finally have ym: "\<bar>y - 1000 * (of_int s + q)\<bar> = 1000 * \<bar>T - (of_int s + q)\<bar>" .
  from d have "1000 * \<bar>T - (of_int s + q)\<bar> \<le> 1000 * (1 / 8388608 + 1 / 18014398509481984)"
    by (rule mult_left_mono) simp
  then have yK: "\<bar>y - (of_int K + of_nat r / 1000)\<bar>
      \<le> 1000 * (1 / 8388608 + 1 / 18014398509481984)"
    unfolding Kq ym .

  have "M \<ge> of_int K \<and> M < of_int K + 1"
  proof (cases "r = 0")
    case True
    with yK have yK0: "\<bar>y - of_int K\<bar> \<le> 1000 * (1 / 8388608 + 1 / 18014398509481984)"
      by simp
    have "y / (1 / 4096) - of_int (K * 4096) = 4096 * (y - of_int K)"
      by simp
    then have "\<bar>y / (1 / 4096) - of_int (K * 4096)\<bar> = \<bar>4096 * (y - of_int K)\<bar>"
      by (rule arg_cong)
    also have "\<dots> = 4096 * \<bar>y - of_int K\<bar>"
      by (simp only: abs_mult abs_numeral)
    also from yK0 have "\<dots> \<le> 4096 * (1000 * (1 / 8388608 + 1 / 18014398509481984))"
      by (rule mult_left_mono) simp
    also have "\<dots> < 1 / 2"
      by simp
    finally have "\<bar>y / (1 / 4096) - of_int (K * 4096)\<bar> < 1 / 2" .
    then have "rne (y / (1 / 4096)) = K * 4096" by (rule rne_eqI)
    with Mrne have "M = of_int K" by simp
    then show ?thesis by simp
  next
    case False
    then have "1 \<le> r" by simp
    then have r1: "(1::rat) \<le> of_nat r" by simp
    have "r \<le> 999" unfolding r_def by simp
    then have r2: "(of_nat r :: rat) \<le> 999" by simp
    have c: "1000 * (1 / 8388608 + 1 / 18014398509481984) < (1 / 4000 :: rat)"
      by simp
    from yK c have y3: "\<bar>y - (of_int K + of_nat r / 1000)\<bar> < 1 / 4000"
      by (rule le_less_trans)
    from y3 My r1 have lo: "of_int K \<le> M" by linarith
    from y3 My r2 have hi: "M < of_int K + 1" by linarith
    from lo hi show ?thesis ..
  qed
  then have "\<lfloor>M\<rfloor> = K" and "0 \<le> M" using s1 unfolding K_def by linarith+
  then have "int_of_float M = K" by (simp add: int_of_float_def)
  with ts show ?thesis unfolding K_def by simp
qed

section \<open>Properties of the trial record\<close>

text \<open>
  Where the offset from UTC is the same for two days around a wall-clock reading, the
  instant of the reading is the reading less the offset.
\<close>

lemma mktime_constant_offset:
  assumes off: "\<forall>u. wall_seconds d - 172800 \<le> u \<and> u \<le> wall_seconds d + 172800
                  \<longrightarrow> local u = u + off"
    and small: "\<bar>off\<bar> \<le> 86400"
  shows "mktime local d = wall_seconds d - off"
proof -
  let ?t = "wall_seconds d"
  have L: "local u = u + off" if "?t - 172800 \<le> u" "u \<le> ?t + 172800" for u
    using off that by blast
  have a: "local ?t = ?t + off"
    using L [of ?t] by simp
  have t1: "local (?t - off) = ?t"
    using L [of "?t - off"] small by simp
  have b1: "local (?t - off + 86400) = ?t + 86400"
    using L [of "?t - off + 86400"] small by simp
  have b2: "local (?t - off - 86400) = ?t - 86400"
    using L [of "?t - off - 86400"] small by simp
  show ?thesis
    using a t1 b1 b2 by (simp add: mktime_def Let_def)
qed

lemma utc_offset_constant:
  assumes "\<forall>u. wall_seconds d - 172800 \<le> u \<and> u \<le> wall_seconds d + 172800
             \<longrightarrow> local u = u + off"
    and "\<bar>off\<bar> \<le> 86400"
  shows "utc_offset local d = off"
  unfolding utc_offset_def mktime_constant_offset [OF assms] by simp

lemma timestamp_ms_exact:
  assumes "1099511628 \<le> mktime local d" and "mktime local d < 2147483647"
    and "microsecond d < 1000000"
  shows "timestamp_ms local d = 1000 * mktime local d + int (microsecond d div 1000)"
  unfolding timestamp_ms_def timestamp_def using assms by (rule milliseconds_exact)

lemma trial_flag_and_token:
  "hasUsedTrial (new_trial_data local now future_date new_id) = False
   \<and> machineId (new_trial_data local now future_date new_id) = new_id"
  by (simp add: new_trial_data_def)

text \<open>
  Beyond 2038 the seconds need one more bit and the product is no longer restored:
  for the reading 2037-12-06 22:03:28.937 UTC the start is exact and the end, 90 days
  later, is one millisecond short.
\<close>

lemma fl_eqI:
  assumes "2 powi n \<le> x" and "x < 2 powi (n + 1)"
    and "\<bar>x / 2 powi (n - 52) - of_int k\<bar> < 1 / 2"
  shows "fl x = of_int k * 2 powi (n - 52)"
  unfolding fl_at [OF assms(1,2)] rne_eqI [OF assms(3)] ..

lemma mktime_utc: "mktime utc d = wall_seconds d"
  by (simp add: mktime_def utc_def Let_def)

lemma rounding_loses_a_millisecond:
  "timestamp_ms utc \<lparr>wall_seconds = 2143749808, microsecond = 937000, fold = False\<rparr>
     = 2143749808937
   \<and> timestamp_ms utc \<lparr>wall_seconds = 2143749808 + 7776000, microsecond = 937000, fold = False\<rparr>
     = 2151525808936"
proof -
  have 1: "timestamp_ms utc \<lparr>wall_seconds = 2143749808, microsecond = 937000, fold = False\<rparr>
     = 2143749808937"
    using timestamp_ms_exact [of utc "\<lparr>wall_seconds = 2143749808, microsecond = 937000, fold = False\<rparr>"]
    by (simp add: mktime_utc)
  have s: "fl 2151525808 = 2151525808"
    using fl_of_nat [of 2151525808] by simp
  have u: "fl 937000 = 937000"
    using fl_of_nat [of 937000] by simp
  have F: "fl (937 / 1000) = 4219872850846155 / 4503599627370496"
    using fl_eqI [of "- 1" "937 / 1000" 8439745701692310]
    by (simp add: inverse_eq_divide)
  have T: "fl (9689610831406678172606923 / 4503599627370496) = 4512076653263847 / 2097152"
    using fl_eqI [of 31 "9689610831406678172606923 / 4503599627370496" 4512076653263847]
    by (simp add: inverse_eq_divide)
  have M: "fl (564009581657980875 / 262144) = 8812649713405951 / 4096"
    using fl_eqI [of 40 "564009581657980875 / 262144" 8812649713405951]
    by (simp add: inverse_eq_divide)
  have fl': "\<lfloor>(8812649713405951 / 4096 :: rat)\<rfloor> = 2151525808936"
    by (rule floor_unique) simp_all
  have 2: "timestamp_ms utc \<lparr>wall_seconds = 2143749808 + 7776000, microsecond = 937000, fold = False\<rparr>
     = 2151525808936"
    by (simp add: timestamp_ms_def timestamp_def mktime_utc float_add_def float_mul_def
        float_div_def float_of_int_def int_of_float_def s u F T M fl')
  from 1 2 show ?thesis ..
qed

text \<open>
  C8 does not hold as stated: the end is the instant at which the local wall clock reads
  90 days more than at the start. In Berlin a record created on 2025-01-15
  at 12:00:00 ends on 2025-04-15 at 12:00:00 summer time, one hour less than 90 days
  after its start.
\<close>

theorem trial_end_differs_across_summer_time:
  "add_days \<lparr>wall_seconds = 1736942400, microsecond = 0, fold = False\<rparr> 90
     = Inr \<lparr>wall_seconds = 1744718400, microsecond = 0, fold = False\<rparr>
   \<and> trialStartTimestamp
        (new_trial_data europe_berlin_2025
           \<lparr>wall_seconds = 1736942400, microsecond = 0, fold = False\<rparr>
           \<lparr>wall_seconds = 1744718400, microsecond = 0, fold = False\<rparr>
           ''f47ac10b-58cc-4372-a567-0e02b2c3d479'')
       = 1736938800000
   \<and> trialEndTimestamp
        (new_trial_data europe_berlin_2025
           \<lparr>wall_seconds = 1736942400, microsecond = 0, fold = False\<rparr>
           \<lparr>wall_seconds = 1744718400, microsecond = 0, fold = False\<rparr>
           ''f47ac10b-58cc-4372-a567-0e02b2c3d479'')
       = 1744711200000
   \<and> trialEndTimestamp
        (new_trial_data europe_berlin_2025
           \<lparr>wall_seconds = 1736942400, microsecond = 0, fold = False\<rparr>
           \<lparr>wall_seconds = 1744718400, microsecond = 0, fold = False\<rparr>
           ''f47ac10b-58cc-4372-a567-0e02b2c3d479'')
       \<noteq> trialStartTimestamp
        (new_trial_data europe_berlin_2025
           \<lparr>wall_seconds = 1736942400, microsecond = 0, fold = False\<rparr>
           \<lparr>wall_seconds = 1744718400, microsecond = 0, fold = False\<rparr>
           ''f47ac10b-58cc-4372-a567-0e02b2c3d479'')
         + 7776000000"
proof -
  let ?now = "\<lparr>wall_seconds = 1736942400, microsecond = 0, fold = False\<rparr>"
  let ?future = "\<lparr>wall_seconds = 1744718400, microsecond = 0, fold = False\<rparr>"
  have a: "add_days ?now 90 = Inr ?future"
    by (simp add: add_days_def MIN_WALL_SECONDS_def MAX_WALL_SECONDS_def)
  have m1: "mktime europe_berlin_2025 ?now = 1736938800"
    by (simp add: mktime_def europe_berlin_2025_def Let_def)
  have m2: "mktime europe_berlin_2025 ?future = 1744711200"
    by (simp add: mktime_def europe_berlin_2025_def Let_def)
  have s: "timestamp_ms europe_berlin_2025 ?now = 1736938800000"
    using timestamp_ms_exact [of europe_berlin_2025 ?now] by (simp add: m1)
  have e: "timestamp_ms europe_berlin_2025 ?future = 1744711200000"
    using timestamp_ms_exact [of europe_berlin_2025 ?future] by (simp add: m2)
  from a s e show ?thesis
    by (simp add: new_trial_data_def)
qed

text \<open>No record is written when the date 90 days later would pass the year 9999.\<close>

lemma no_record_after_date_overflow:
  assumes "os_now os w = (now, w1)" and "add_days now 90 = Inl e"
  shows "create_new_trial_info os path w = (Generation_failed e, w1)"
  using assms by (simp add: create_new_trial_info_def)

lemma add_days_reading:
  assumes "add_days now days = Inr future_date"
  shows "wall_seconds future_date = wall_seconds now + days * 86400"
    and "microsecond future_date = microsecond now"
  using assms by (auto simp: add_days_def Let_def split: if_splits)

text \<open>
  C8, amended. Every record written has \<^verbatim>\<open>hasUsedTrial\<close> false and the token just drawn
  as \<^verbatim>\<open>machineId\<close>, whatever the creation time; its timestamps are those of the reading of
  the local wall clock at creation and of the reading 90 days later. When the instants of
  both readings lie from 1099511628 to 2147483646 seconds after the epoch (2004-11-03
  19:53:48 to 2038-01-19 03:14:06 UTC) and the microseconds of the reading are below a
  million, as they are in every datetime, the timestamps are these instants in whole
  milliseconds since the epoch, and the end is exactly the start plus 7 776 000 000 ms
  if and only if the offset from UTC is the same for both readings.
\<close>

theorem trial_record_fields:
  assumes now: "os_now os w = (now, w1)"
    and add: "add_days now 90 = Inr future_date"
    and uuid: "os_uuid4 os w1 = (new_id, w2)"
  shows "create_new_trial_info os path w =
           create_file_with_content os path
             (json_dumps (new_trial_data (os_localtime os) now future_date new_id))
             ''Created new trial info'' w2
         \<and> hasUsedTrial (new_trial_data (os_localtime os) now future_date new_id) = False
         \<and> machineId (new_trial_data (os_localtime os) now future_date new_id) = new_id
         \<and> trialStartTimestamp (new_trial_data (os_localtime os) now future_date new_id)
             = timestamp_ms (os_localtime os) now
         \<and> trialEndTimestamp (new_trial_data (os_localtime os) now future_date new_id)
             = timestamp_ms (os_localtime os) future_date
         \<and> wall_seconds future_date = wall_seconds now + 7776000
         \<and> (microsecond now < 1000000
              \<and> 1099511628 \<le> mktime (os_localtime os) now
              \<and> mktime (os_localtime os) now < 2147483647
              \<and> 1099511628 \<le> mktime (os_localtime os) future_date
              \<and> mktime (os_localtime os) future_date < 2147483647
            \<longrightarrow>
              trialStartTimestamp (new_trial_data (os_localtime os) now future_date new_id)
                = 1000 * mktime (os_localtime os) now + int (microsecond now div 1000)
              \<and> trialEndTimestamp (new_trial_data (os_localtime os) now future_date new_id)
                = 1000 * mktime (os_localtime os) future_date + int (microsecond now div 1000)
              \<and> (trialEndTimestamp (new_trial_data (os_localtime os) now future_date new_id)
                   = trialStartTimestamp (new_trial_data (os_localtime os) now future_date new_id)
                     + 7776000000
                  \<longleftrightarrow> utc_offset (os_localtime os) future_date
                       = utc_offset (os_localtime os) now))"
proof -
  let ?L = "os_localtime os"
  let ?D = "new_trial_data ?L now future_date new_id"
  note rd = add_days_reading [OF add]
  have written: "create_new_trial_info os path w =
      create_file_with_content os path (json_dumps ?D) ''Created new trial info'' w2"
    by (simp add: create_new_trial_info_def now add uuid)
  have flag: "hasUsedTrial ?D = False" and token: "machineId ?D = new_id"
    and start: "trialStartTimestamp ?D = timestamp_ms ?L now"
    and end': "trialEndTimestamp ?D = timestamp_ms ?L future_date"
    by (simp_all add: new_trial_data_def)
  have later: "wall_seconds future_date = wall_seconds now + 7776000"
    using rd(1) by simp
  have exact: "trialStartTimestamp ?D = 1000 * mktime ?L now + int (microsecond now div 1000)
      \<and> trialEndTimestamp ?D
          = 1000 * mktime ?L future_date + int (microsecond now div 1000)
      \<and> (trialEndTimestamp ?D = trialStartTimestamp ?D + 7776000000
          \<longleftrightarrow> utc_offset ?L future_date = utc_offset ?L now)"
    if us: "microsecond now < 1000000"
      and n1: "1099511628 \<le> mktime ?L now" and n2: "mktime ?L now < 2147483647"
      and f1: "1099511628 \<le> mktime ?L future_date" and f2: "mktime ?L future_date < 2147483647"
  proof -
    have s: "trialStartTimestamp ?D = 1000 * mktime ?L now + int (microsecond now div 1000)"
      unfolding start using n1 n2 us by (rule timestamp_ms_exact)
    have "timestamp_ms ?L future_date
            = 1000 * mktime ?L future_date + int (microsecond future_date div 1000)"
      using f1 f2 us unfolding rd(2) [symmetric] by (rule timestamp_ms_exact)
    then have e: "trialEndTimestamp ?D
                    = 1000 * mktime ?L future_date + int (microsecond now div 1000)"
      unfolding end' rd(2) .
    have "trialEndTimestamp ?D = trialStartTimestamp ?D + 7776000000
            \<longleftrightarrow> mktime ?L future_date = mktime ?L now + 7776000"
      unfolding s e by linarith
    also have "\<dots> \<longleftrightarrow> utc_offset ?L future_date = utc_offset ?L now"
      unfolding utc_offset_def later by linarith
    finally show ?thesis
      using s e by blast
  qed
  from written flag token start end' later exact show ?thesis
    by blast
qed

theorem trial_record_fields_witness:
  "create_new_trial_info fs (Path ''/home/user/.config/Cursor/trial_info.json'') example_world
     = create_file_with_content fs (Path ''/home/user/.config/Cursor/trial_info.json'')
         (json_dumps
            \<lparr>trialStartTimestamp = 1736942400123,
             trialEndTimestamp = 1744718400123,
             hasUsedTrial = False,
             machineId = ''0b5a3c1e-7d2f-4c60-9a41-5e8f2d6b7c90''\<rparr>)
         ''Created new trial info'' (example_world\<lparr>drawn := 1\<rparr>)
   \<and> utc_offset (os_localtime fs)
         \<lparr>wall_seconds = 1744718400, microsecond = 123456, fold = False\<rparr>
       = utc_offset (os_localtime fs)
           \<lparr>wall_seconds = 1736942400, microsecond = 123456, fold = False\<rparr>
   \<and> (1744718400123 :: int) = 1736942400123 + 7776000000"
proof -
  let ?now = "\<lparr>wall_seconds = 1736942400, microsecond = 123456, fold = False\<rparr>"
  let ?future = "\<lparr>wall_seconds = 1744718400, microsecond = 123456, fold = False\<rparr>"
  let ?D = "new_trial_data (os_localtime fs) ?now ?future ''0b5a3c1e-7d2f-4c60-9a41-5e8f2d6b7c90''"
  have now: "os_now fs example_world = (?now, example_world)"
    by (simp add: fs_def fs_now_def example_world_def)
  have add: "add_days ?now 90 = Inr ?future"
    by (simp add: add_days_def MIN_WALL_SECONDS_def MAX_WALL_SECONDS_def)
  have uuid: "os_uuid4 fs example_world
               = (''0b5a3c1e-7d2f-4c60-9a41-5e8f2d6b7c90'', example_world\<lparr>drawn := 1\<rparr>)"
    by (simp add: fs_def fs_uuid4_def example_world_def)
  have zone: "os_localtime fs = utc"
    by (simp add: fs_def)
  have range: "microsecond ?now < 1000000
      \<and> 1099511628 \<le> mktime (os_localtime fs) ?now
      \<and> mktime (os_localtime fs) ?now < 2147483647
      \<and> 1099511628 \<le> mktime (os_localtime fs) ?future
      \<and> mktime (os_localtime fs) ?future < 2147483647"
    by (simp add: zone mktime_utc)
  note t = trial_record_fields [OF now add uuid]
  from t have written: "create_new_trial_info fs (Path ''/home/user/.config/Cursor/trial_info.json'')
        example_world
      = create_file_with_content fs (Path ''/home/user/.config/Cursor/trial_info.json'')
          (json_dumps ?D) ''Created new trial info'' (example_world\<lparr>drawn := 1\<rparr>)"
    by blast
  from t range have
    s: "trialStartTimestamp ?D = 1000 * mktime (os_localtime fs) ?now + int (microsecond ?now div 1000)"
    and e: "trialEndTimestamp ?D
              = 1000 * mktime (os_localtime fs) ?future + int (microsecond ?now div 1000)"
    and iff: "trialEndTimestamp ?D = trialStartTimestamp ?D + 7776000000
              \<longleftrightarrow> utc_offset (os_localtime fs) ?future = utc_offset (os_localtime fs) ?now"
    by blast+
  from s have s': "timestamp_ms utc ?now = 1736942400123"
    by (simp add: new_trial_data_def zone mktime_utc)
  from e have e': "timestamp_ms utc ?future = 1744718400123"
    by (simp add: new_trial_data_def zone mktime_utc)
  have D: "?D = \<lparr>trialStartTimestamp = 1736942400123, trialEndTimestamp = 1744718400123,
                  hasUsedTrial = False, machineId = ''0b5a3c1e-7d2f-4c60-9a41-5e8f2d6b7c90''\<rparr>"
    by (simp add: new_trial_data_def zone s' e')
  have same: "utc_offset (os_localtime fs) ?future = utc_offset (os_localtime fs) ?now"
    using iff by (simp add: new_trial_data_def zone s' e')
  from written D same show ?thesis
    by simp
qed

end
